(* ===== verification/Prelude.thy ===== *)
theory Prelude
  imports Complex_Main "HOL-Library.AList" "HOL-Library.List_Lexorder" "HOL-Library.Char_ord"
begin

text \<open>
  Shared vocabulary of the development: the Python exceptions the modelled code can
  raise, the shape of a stateful outcome (the state is always returned, because the
  App Engine datastore keeps every \<open>put()\<close> made before an exception), the
  association-list model of a datastore kind, and the generic lemmas on association
  lists that the component theories use.
\<close>

named_theorems store_simps \<open>rewrite rules for the association-list datastore model\<close>

section \<open>Python exceptions and outcomes\<close>

datatype py_error =
    NameError string
  | TypeError string
  | ValueError string
  | KeyError string
  | UnboundLocalError string
  | BadValueError string
  | UnicodeEncodeError string
  | AttributeError string

type_synonym 'a result = "py_error + 'a"

text \<open>
  A Python value of the kinds the modelled code passes around: configuration constants,
  request-derived values and entity properties. A Python \<open>float\<close> is modelled by a
  real number (rounding is not modelled).
\<close>

datatype py_value = PyNone | PyBool bool | PyInt int | PyFloat real | PyStr string

text \<open>Python truthiness of a string and of an optional string (\<open>None\<close> is false).\<close>

definition truthy :: "string option \<Rightarrow> bool" where
  "truthy v \<longleftrightarrow> (case v of None \<Rightarrow> False | Some s \<Rightarrow> s \<noteq> [])"

lemma truthy_simps [simp]: "\<not> truthy None" "truthy (Some s) \<longleftrightarrow> s \<noteq> []"
  by (simp_all add: truthy_def)

text \<open>
  A handler that mutates persistent state and may raise: the state after the call
  (with every write that happened before the exception) and \<open>None\<close> or the
  exception.
\<close>

type_synonym 's outcome = "'s \<times> py_error option"

section \<open>A datastore kind as an association list\<close>

text \<open>
  Entities of one kind, keyed by their id, in the order their keys were first written.
  \<open>put\<close> of an entity whose key exists overwrites it in place
  (\<open>AList.update\<close>); a new key goes to the end.
\<close>

type_synonym ('k, 'v) kind_store = "('k \<times> 'v) list"

definition put :: "'k \<Rightarrow> 'v \<Rightarrow> ('k, 'v) kind_store \<Rightarrow> ('k, 'v) kind_store" where
  "put k v st = AList.update k v st"

definition put_all :: "('k \<times> 'v) list \<Rightarrow> ('k, 'v) kind_store \<Rightarrow> ('k, 'v) kind_store" where
  "put_all ops st = fold (\<lambda>(k, v). put k v) ops st"

lemma put_all_Nil [simp, store_simps]: "put_all [] st = st"
  by (simp add: put_all_def)

lemma put_all_Cons [simp, store_simps]: "put_all ((k, v) # ops) st = put_all ops (put k v st)"
  by (simp add: put_all_def)

lemma put_all_append [store_simps]: "put_all (xs @ ys) st = put_all ys (put_all xs st)"
  by (simp add: put_all_def)

lemma map_of_put [simp, store_simps]: "map_of (put k v st) = (map_of st)(k \<mapsto> v)"
  by (simp add: put_def update_conv')

lemma distinct_put [store_simps]: "distinct (map fst st) \<Longrightarrow> distinct (map fst (put k v st))"
  by (simp add: put_def distinct_update)

lemma keys_put [simp, store_simps]: "fst ` set (put k v st) = insert k (fst ` set st)"
  by (simp add: put_def dom_update)

lemma put_fresh [store_simps]: "k \<notin> fst ` set st \<Longrightarrow> put k v st = st @ [(k, v)]"
  by (induction st) (auto simp: put_def)

lemma put_Nil [simp]: "put k v [] = [(k, v)]"
  by (simp add: put_def)

section \<open>Request parameters\<close>

text \<open>
  A dictionary of request parameters (names to unicode values) as an association
  list: \<open>map_of p k\<close> reads it, \<open>put k v p\<close> is \<open>p[k] = v\<close> on a copy, and
  \<open>param_get p k d\<close> is \<open>p.get(k, d)\<close>.
\<close>

type_synonym params = "(string \<times> string) list"

definition param_get :: "params \<Rightarrow> string \<Rightarrow> string \<Rightarrow> string" where
  "param_get p k d = (case map_of p k of None \<Rightarrow> d | Some v \<Rightarrow> v)"

lemma param_get_put [simp]: "param_get (put k v p) k' d = (if k' = k then v else param_get p k' d)"
  by (simp add: param_get_def)

lemma map_of_put_all [store_simps]: "map_of (put_all ops st) = map_of st ++ map_of (rev ops)"
  by (induction ops arbitrary: st) (auto simp: map_add_def fun_eq_iff split: option.splits)

lemma distinct_put_all [store_simps]:
  "distinct (map fst st) \<Longrightarrow> distinct (map fst (put_all ops st))"
  by (induction ops arbitrary: st) (auto simp: distinct_put)

lemma set_put_subset [store_simps]: "set (put k v st) \<subseteq> insert (k, v) (set st)"
  by (induction st) (auto simp: put_def)

lemma put_present [store_simps]:
  "distinct (map fst st) \<Longrightarrow> (k, v) \<in> set st \<Longrightarrow> put k v st = st"
  by (induction st) (auto simp: put_def rev_image_eqI)

lemma set_put_consistent:
  assumes "distinct (map fst st)" and "(k, v) \<in> set st \<or> k \<notin> fst ` set st"
  shows "set (put k v st) = insert (k, v) (set st)"
  using assms by (auto simp: put_present put_fresh)

text \<open>
  A list of writes is \<^emph>\<open>consistent\<close> when it never writes two values under one key.
  The final store of consistent writes depends only on the set of writes, not on
  their order or repetition: the basis of the race analysis of category seeding.
\<close>

definition consistent :: "('k \<times> 'v) set \<Rightarrow> bool" where
  "consistent S \<longleftrightarrow> (\<forall>k v v'. (k, v) \<in> S \<longrightarrow> (k, v') \<in> S \<longrightarrow> v = v')"

lemma consistent_subset: "consistent S \<Longrightarrow> T \<subseteq> S \<Longrightarrow> consistent T"
  by (auto simp: consistent_def)

lemma map_of_consistent:
  "consistent (set xs) \<Longrightarrow> map_of xs k = Some v \<longleftrightarrow> (k, v) \<in> set xs"
  by (auto simp: consistent_def dest: map_of_SomeD)
     (metis weak_map_of_SomeI map_of_SomeD)

lemma map_of_eq_if_same_set:
  assumes "consistent (set xs)" and "set xs = set ys"
  shows "map_of xs = map_of ys"
proof
  fix k
  have cy: "consistent (set ys)" using assms by simp
  show "map_of xs k = map_of ys k"
  proof (cases "map_of xs k")
    case None
    then have "k \<notin> fst ` set ys" using assms(2) by (simp add: map_of_eq_None_iff)
    then have "map_of ys k = None" by (simp add: map_of_eq_None_iff)
    then show ?thesis using None by simp
  next
    case (Some v)
    then have "(k, v) \<in> set ys" using map_of_consistent [OF assms(1)] assms(2) by simp
    with Some show ?thesis using map_of_consistent [OF cy] by metis
  qed
qed

lemma count_list_replicate_eq [simp]: "count_list (replicate n x) y = (if x = y then n else 0)"
  by (induction n) auto

lemma sort_distinct_set: "distinct xs \<Longrightarrow> sort xs = sorted_list_of_set (set xs)"
  by (simp add: sorted_list_of_set_sort_remdups distinct_remdups_id)

end
