(* ===== verification/PyBuiltins.thy ===== *)
theory PyBuiltins
  imports Prelude
begin

text \<open>
  The Python 2.7 builtins the handlers rely on, modelled on ASCII strings: the
  whitespace of \<open>str.strip()\<close>, \<open>int(s)\<close> for a base-10 string (the documented
  literal: optional surrounding whitespace, an optional sign with no space after it,
  one or more decimal digits, else \<open>ValueError\<close>) and \<open>str(n)\<close> for an integer.
  Their round trip \<open>int(str(n)) = n\<close> is what makes the offset written into a
  pagination link read back as the same number by the next request.
\<close>

section \<open>Whitespace and strip\<close>

definition py_whitespace :: "char list" where
  "py_whitespace = [CHR '' '', CHR 0x09, CHR 0x0A, CHR 0x0B, CHR 0x0C, CHR 0x0D]"

definition is_space :: "char \<Rightarrow> bool" where
  "is_space c \<longleftrightarrow> c \<in> set py_whitespace"

definition py_strip :: "string \<Rightarrow> string" where
  "py_strip s = rev (dropWhile is_space (rev (dropWhile is_space s)))"

section \<open>Decimal digits\<close>

definition is_digit :: "char \<Rightarrow> bool" where
  "is_digit c \<longleftrightarrow> CHR ''0'' \<le> c \<and> c \<le> CHR ''9''"

definition digit_value :: "char \<Rightarrow> nat" where
  "digit_value c = of_char c - 48"

definition digit_char :: "nat \<Rightarrow> char" where
  "digit_char d = char_of (48 + d)"

definition decimal_value :: "string \<Rightarrow> nat" where
  "decimal_value s = foldl (\<lambda>n c. 10 * n + digit_value c) 0 s"

definition parse_decimal :: "string \<Rightarrow> int option" where
  "parse_decimal s = (if s \<noteq> [] \<and> list_all is_digit s then Some (int (decimal_value s)) else None)"

section \<open>int(s)\<close>

definition py_int_of_str :: "string \<Rightarrow> int option" where
  "py_int_of_str s =
     (case py_strip s of
        c # r \<Rightarrow> if c = CHR ''-'' then map_option uminus (parse_decimal r)
                 else if c = CHR ''+'' then parse_decimal r
                 else parse_decimal (c # r)
      | [] \<Rightarrow> None)"

section \<open>str(n)\<close>

fun nat_digits :: "nat \<Rightarrow> string" where
  "nat_digits n = (if n < 10 then [digit_char n] else nat_digits (n div 10) @ [digit_char (n mod 10)])"

declare nat_digits.simps [simp del]

definition py_str_int :: "int \<Rightarrow> string" where
  "py_str_int i = (if i < 0 then CHR ''-'' # nat_digits (nat (- i)) else nat_digits (nat i))"

section \<open>int(x) on a value\<close>

text \<open>
  \<open>int(x)\<close>: an \<open>int\<close> is itself, a \<open>bool\<close> is 0 or 1, a \<open>float\<close> is truncated
  towards zero, a string is parsed (\<open>ValueError\<close> when it is no integer literal) and
  \<open>None\<close> raises \<open>TypeError\<close>.
\<close>

definition py_int :: "py_value \<Rightarrow> int result" where
  "py_int v =
     (case v of
        PyInt n \<Rightarrow> Inr n
      | PyBool b \<Rightarrow> Inr (if b then 1 else 0)
      | PyFloat r \<Rightarrow> Inr (if 0 \<le> r then \<lfloor>r\<rfloor> else \<lceil>r\<rceil>)
      | PyStr s \<Rightarrow> (case py_int_of_str s of
                     Some n \<Rightarrow> Inr n
                   | None \<Rightarrow> Inl (ValueError ''invalid literal for int() with base 10''))
      | PyNone \<Rightarrow> Inl (TypeError ''int() argument must be a string or a number''))"

lemma py_int_PyInt [simp]: "py_int (PyInt n) = Inr n"
  by (simp add: py_int_def)

section \<open>Lemmas\<close>

lemma digit_char_is_digit [simp]: "d < 10 \<Longrightarrow> is_digit (digit_char d)"
  by (simp add: is_digit_def digit_char_def less_eq_char_def)

lemma digit_char_simps [simp]:
  "digit_char 0 = CHR ''0''" "digit_char 1 = CHR ''1''" "digit_char (Suc 0) = CHR ''1''"
  "digit_char 2 = CHR ''2''" "digit_char 3 = CHR ''3''" "digit_char 4 = CHR ''4''"
  "digit_char 5 = CHR ''5''" "digit_char 6 = CHR ''6''" "digit_char 7 = CHR ''7''"
  "digit_char 8 = CHR ''8''" "digit_char 9 = CHR ''9''"
  by (simp_all add: digit_char_def char_of_def bit_simps)

lemma digit_value_digit_char [simp]: "d < 10 \<Longrightarrow> digit_value (digit_char d) = d"
  by (simp add: digit_value_def digit_char_def)

lemma of_char_digit_char [simp]: "d < 10 \<Longrightarrow> of_char (digit_char d) = 48 + d"
  by (simp add: digit_char_def)

lemma space_code: "is_space c \<Longrightarrow> of_char c < (48::nat)"
  by (auto simp: is_space_def py_whitespace_def)

lemma digit_char_not_space [simp]: "d < 10 \<Longrightarrow> \<not> is_space (digit_char d)"
  using space_code [of "digit_char d"] by auto

lemma decimal_value_snoc [simp]:
  "decimal_value (xs @ [c]) = 10 * decimal_value xs + digit_value c"
  by (simp add: decimal_value_def)

lemma nat_digits_ne [simp]: "nat_digits n \<noteq> []"
  by (subst nat_digits.simps) simp

lemma nat_digits_props:
  "list_all is_digit (nat_digits n) \<and> decimal_value (nat_digits n) = n"
proof (induction n rule: nat_digits.induct)
  case (1 n)
  show ?case
  proof (cases "n < 10")
    case True
    then show ?thesis
      by (simp add: nat_digits.simps [of n] decimal_value_def)
  next
    case False
    with "1.IH" have "list_all is_digit (nat_digits (n div 10)) \<and>
        decimal_value (nat_digits (n div 10)) = n div 10" by simp
    with False show ?thesis
      by (subst (1 2) nat_digits.simps) simp
  qed
qed

lemma nat_digits_hd: "\<exists>d r. nat_digits n = digit_char d # r \<and> d < 10"
proof (induction n rule: nat_digits.induct)
  case (1 n)
  then show ?case
    by (cases "n < 10") (subst nat_digits.simps, auto simp: Cons_eq_append_conv)+
qed

lemma strip_no_space:
  assumes "s \<noteq> []" and "\<not> is_space (hd s)" and "\<not> is_space (last s)"
  shows "py_strip s = s"
proof -
  have "dropWhile is_space s = s" using assms(1,2) by (cases s) auto
  moreover have "dropWhile is_space (rev s) = rev s"
    using assms(1,3) by (cases "rev s") (auto simp: last_rev[symmetric])
  ultimately show ?thesis by (simp add: py_strip_def)
qed

lemma py_strip_ends:
  assumes "py_strip s \<noteq> []"
  shows "\<not> is_space (hd (py_strip s)) \<and> \<not> is_space (last (py_strip s))"
proof -
  let ?x = "dropWhile is_space s"
  let ?y = "dropWhile is_space (rev ?x)"
  have y: "?y \<noteq> []" using assms by (simp add: py_strip_def)
  have "?x = rev ?y @ rev (takeWhile is_space (rev ?x))"
    by (metis rev_append rev_rev_ident takeWhile_dropWhile_id)
  then have "hd (py_strip s) = hd ?x" using y by (metis Nil_is_rev_conv hd_append2 py_strip_def)
  moreover have "?x \<noteq> []" using y by (metis dropWhile.simps(1) rev.simps(1))
  then have "\<not> is_space (hd ?x)" by (rule hd_dropWhile)
  moreover have "last (py_strip s) = hd ?y" using y by (simp add: py_strip_def last_rev)
  moreover have "\<not> is_space (hd ?y)" using y by (rule hd_dropWhile)
  ultimately show ?thesis by simp
qed

lemma nat_digits_last: "\<exists>d. last (nat_digits n) = digit_char d \<and> d < 10"
  by (subst nat_digits.simps) auto

lemma minus_not_digit [simp]: "\<not> is_digit CHR ''-''" and plus_not_digit [simp]: "\<not> is_digit CHR ''+''"
  by (simp_all add: is_digit_def less_eq_char_def)

lemma minus_not_space [simp]: "\<not> is_space CHR ''-''"
  by (simp add: is_space_def py_whitespace_def)

lemma digit_char_not_sign [simp]:
  "d < 10 \<Longrightarrow> digit_char d \<noteq> CHR ''-''" "d < 10 \<Longrightarrow> digit_char d \<noteq> CHR ''+''"
  using digit_char_is_digit by fastforce+

lemma strip_nat_digits [simp]: "py_strip (nat_digits n) = nat_digits n"
  using nat_digits_hd [of n] nat_digits_last [of n] by (auto intro: strip_no_space)

lemma strip_minus_nat_digits [simp]: "py_strip (CHR ''-'' # nat_digits n) = CHR ''-'' # nat_digits n"
  using nat_digits_last [of n] by (auto intro: strip_no_space)

lemma parse_decimal_nat_digits [simp]: "parse_decimal (nat_digits n) = Some (int n)"
  using nat_digits_props [of n] by (simp add: parse_decimal_def)

text \<open>\<open>int(str(i)) == i\<close> for every integer.\<close>

lemma py_int_of_str_py_str_int [simp]: "py_int_of_str (py_str_int i) = Some i"
proof (cases "i < 0")
  case True
  then show ?thesis by (simp add: py_str_int_def py_int_of_str_def)
next
  case False
  obtain d r where d: "nat_digits (nat i) = digit_char d # r" and "d < 10"
    using nat_digits_hd by blast
  then have "py_int_of_str (nat_digits (nat i)) = parse_decimal (nat_digits (nat i))"
    using strip_nat_digits [of "nat i"] by (simp add: py_int_of_str_def)
  with False show ?thesis by (simp add: py_str_int_def)
qed

lemma py_str_int_ascii: "c \<in> set (py_str_int i) \<Longrightarrow> of_char c < (128::nat)"
proof -
  have "\<forall>c \<in> set (nat_digits n). of_char c < (128::nat)" for n
    using nat_digits_props [of n]
    by (auto simp: list_all_iff is_digit_def less_eq_char_def)
  then show "c \<in> set (py_str_int i) \<Longrightarrow> of_char c < (128::nat)"
    by (auto simp: py_str_int_def split: if_splits)
qed

end
