(* ===== verification/Config.thy ===== *)
theory Config
  imports PyBuiltins
begin

text \<open>
  \<open>src/config.py\<close>: the named constants read at start-up, and \<open>src/utils.py\<close>:
  \<open>intClamp\<close>. The constants are Python values, so that reading them with
  \<open>int()\<close> (as \<open>ProductSearchHandler._getDocLimit\<close> does) goes through the
  modelled builtin and its exceptions.
\<close>

section \<open>config.py\<close>

definition PRODUCT_INDEX_NAME :: string where
  "PRODUCT_INDEX_NAME = ''productsearch1''"

definition STORE_INDEX_NAME :: string where
  "STORE_INDEX_NAME = ''stores1''"

definition DOC_LIMIT :: py_value where
  "DOC_LIMIT = PyInt 3"

definition SAMPLE_DATA_SMARTPHONE :: string where
  "SAMPLE_DATA_SMARTPHONE = ''sample_data_smartphone.csv''"

definition SAMPLE_DATA_LAPTOP :: string where
  "SAMPLE_DATA_LAPTOP = ''sample_data_laptop.csv''"

definition UPDATE_PHONE_DATA :: string where
  "UPDATE_PHONE_DATA = ''sample_data_phone_update.csv''"

definition UPDATE_LAPTOP_DATA :: string where
  "UPDATE_LAPTOP_DATA = ''sample_data_laptop_update.csv''"

text \<open>
  The constraint the comment of \<open>PRODUCT_INDEX_NAME\<close> states for an index name:
  visible printable ASCII (codes 33 to 126, so no whitespace), not starting with
  \<open>!\<close>.
\<close>

definition valid_index_name :: "string \<Rightarrow> bool" where
  "valid_index_name s \<longleftrightarrow>
     s \<noteq> [] \<and> hd s \<noteq> CHR ''!'' \<and> (\<forall>c \<in> set s. 33 \<le> of_char c \<and> of_char c \<le> (126::nat))"

section \<open>utils.py: intClamp\<close>

text \<open>
  \<open>max(int(low), min(int(v), int(high)))\<close>: the three conversions run left to right,
  \<open>int(low)\<close> first, and the first one that raises ends the call.
\<close>

definition intClamp :: "py_value \<Rightarrow> py_value \<Rightarrow> py_value \<Rightarrow> int result" where
  "intClamp v low high =
     (case py_int low of
        Inl e \<Rightarrow> Inl e
      | Inr l \<Rightarrow> (case py_int v of
          Inl e \<Rightarrow> Inl e
        | Inr x \<Rightarrow> (case py_int high of
            Inl e \<Rightarrow> Inl e
          | Inr h \<Rightarrow> Inr (max l (min x h)))))"

lemma intClamp_ints [simp]: "intClamp (PyInt v) (PyInt l) (PyInt h) = Inr (max l (min v h))"
  by (simp add: intClamp_def)

lemma intClamp_Inr:
  "py_int low = Inr l \<Longrightarrow> py_int v = Inr x \<Longrightarrow> py_int high = Inr h \<Longrightarrow>
   intClamp v low high = Inr (max l (min x h))"
  by (simp add: intClamp_def)

section \<open>Properties of intClamp\<close>

text \<open>
  C29. The docstring of \<open>intClamp\<close>: when the three arguments convert and
  \<open>low \<le> high\<close>, the result is the integer of \<open>[low, high]\<close> closest to \<open>int(v)\<close>:
  it lies in the range, equals \<open>int(v)\<close> when that lies in the range, and no integer
  of the range is closer.
\<close>

theorem intClamp_closest:
  assumes "py_int low = Inr l" and "py_int v = Inr x" and "py_int high = Inr h" and "l \<le> h"
  shows "\<exists>r. intClamp v low high = Inr r \<and> l \<le> r \<and> r \<le> h \<and> (l \<le> x \<and> x \<le> h \<longrightarrow> r = x)
           \<and> (\<forall>y. l \<le> y \<and> y \<le> h \<longrightarrow> \<bar>r - x\<bar> \<le> \<bar>y - x\<bar>)"
  using assms by (auto simp: intClamp_Inr)

theorem intClamp_closest_witness:
  "py_int (PyInt 0) = Inr 0 \<and> py_int (PyStr ''17'') = Inr 17 \<and> py_int (PyInt 10) = Inr 10 \<and> (0::int) \<le> 10 \<and>
   intClamp (PyStr ''17'') (PyInt 0) (PyInt 10) = Inr 10"
proof -
  have s: "py_int (PyStr ''17'') = Inr 17"
  proof -
    have "nat_digits 17 = ''17''" by (simp add: nat_digits.simps)
    then show ?thesis using py_int_of_str_py_str_int [of 17] by (simp add: py_int_def py_str_int_def)
  qed
  from intClamp_closest [OF py_int_PyInt s py_int_PyInt, of 0 10] obtain r
    where r: "intClamp (PyStr ''17'') (PyInt 0) (PyInt 10) = Inr r" "r \<le> 10"
      and c: "\<forall>y. 0 \<le> y \<and> y \<le> 10 \<longrightarrow> \<bar>r - 17\<bar> \<le> \<bar>y - 17\<bar>"
    by auto
  from c have "\<bar>r - 17\<bar> \<le> \<bar>10 - 17\<bar>" by (rule allE [where x = 10]) simp
  with r have "r = 10" by simp
  with r s show ?thesis by simp
qed

text \<open>
  C30. Outside the docstring: with \<open>low > high\<close> the result is \<open>low\<close>, which is
  not in \<open>[low, high]\<close> (that range is empty) and exceeds \<open>high\<close>; and a value
  \<open>int()\<close> rejects makes the call raise the error of the first such conversion, in
  the order \<open>int(low)\<close>, \<open>int(value)\<close>, \<open>int(high)\<close>.
\<close>

theorem intClamp_inverted_and_errors:
  "(py_int low = Inr l \<longrightarrow> py_int v = Inr x \<longrightarrow> py_int high = Inr h \<longrightarrow> h < l \<longrightarrow>
      intClamp v low high = Inr l)
   \<and> (py_int low = Inl e \<longrightarrow> intClamp v low high = Inl e)
   \<and> (py_int low = Inr l \<longrightarrow> py_int v = Inl e \<longrightarrow> intClamp v low high = Inl e)
   \<and> (py_int low = Inr l \<longrightarrow> py_int v = Inr x \<longrightarrow> py_int high = Inl e \<longrightarrow> intClamp v low high = Inl e)"
  by (simp add: intClamp_def)

theorem intClamp_inverted_and_errors_witness:
  "py_int (PyInt 5) = Inr 5 \<and> py_int (PyInt 7) = Inr 7 \<and> py_int (PyInt 1) = Inr 1 \<and> (1::int) < 5 \<and>
   intClamp (PyInt 7) (PyInt 5) (PyInt 1) = Inr 5 \<and>
   intClamp (PyInt 7) PyNone (PyInt 1) = py_int PyNone \<and>
   intClamp (PyInt 7) (PyInt 5) PyNone = py_int PyNone"
proof -
  obtain e where e: "py_int PyNone = Inl e" by (simp add: py_int_def)
  have "intClamp (PyInt 7) (PyInt 5) (PyInt 1) = Inr 5"
    using intClamp_inverted_and_errors [of "PyInt 5" 5 "PyInt 7" 7 "PyInt 1" 1] by simp
  moreover have "intClamp (PyInt 7) PyNone (PyInt 1) = Inl e"
    using intClamp_inverted_and_errors [of PyNone _ _ _ _ _ e] e by simp
  moreover have "intClamp (PyInt 7) (PyInt 5) PyNone = Inl e"
    using intClamp_inverted_and_errors [of "PyInt 5" 5 "PyInt 7" 7 PyNone _ e] e by simp
  ultimately show ?thesis using e by simp
qed

end
