(* ===== verification/Pagination.thy ===== *)
theory Pagination
  imports Config
begin

text \<open>
  The pagination computer of \<open>ProductSearchHandler\<close> (\<open>src/handlers.py\<close>):
  the page size read from the configuration (\<open>_getDocLimit\<close>), the offset read
  from the request (in \<open>doProductSearch\<close>), and the previous/next links
  (\<open>_generatePaginationLinks\<close>). A link is the parameter dictionary that
  \<open>'/psearch?' + urllib.urlencode(pcopy)\<close> serialises; \<open>urlencode\<close> calls
  \<open>str()\<close> on each value, which in Python 2 raises \<open>UnicodeEncodeError\<close> on a
  unicode value with a non-ASCII character. The abstract contract of spec section
  4.1, \<open>compute_links\<close>, is stated on plain integers and refined by the link
  generator.
\<close>

section \<open>Links\<close>

type_synonym link = params

definition ascii_value :: "string \<Rightarrow> bool" where
  "ascii_value s \<longleftrightarrow> (\<forall>c \<in> set s. of_char c < (128::nat))"

definition ascii_params :: "params \<Rightarrow> bool" where
  "ascii_params p \<longleftrightarrow> (\<forall>(k, v) \<in> set p. ascii_value v)"

definition urlencode :: "params \<Rightarrow> link result" where
  "urlencode p =
     (if ascii_params p then Inr p
      else Inl (UnicodeEncodeError ''ascii codec can't encode character''))"

text \<open>The offset a request made from a link reads (\<open>int(params['offset'])\<close>).\<close>

definition link_offset :: "link \<Rightarrow> int option" where
  "link_offset l = (case map_of l ''offset'' of None \<Rightarrow> None | Some s \<Rightarrow> py_int_of_str s)"

section \<open>ProductSearchHandler\<close>

definition DEFAULT_DOC_LIMIT :: int where
  "DEFAULT_DOC_LIMIT = 3"

definition OFFSET_LIMIT :: int where
  "OFFSET_LIMIT = 1000"

text \<open>\<open>_getDocLimit\<close>: \<open>int(config.DOC_LIMIT)\<close>, the default on \<open>ValueError\<close> only.\<close>

definition getDocLimit :: "py_value \<Rightarrow> int result" where
  "getDocLimit cfg =
     (case py_int cfg of
        Inr n \<Rightarrow> Inr n
      | Inl (ValueError _) \<Rightarrow> Inr DEFAULT_DOC_LIMIT
      | Inl e \<Rightarrow> Inl e)"

text \<open>
  The offset of \<open>doProductSearch\<close>: \<open>int(params.get('offset', 0))\<close>, and 0 when
  \<open>int()\<close> raises \<open>ValueError\<close>. A negative literal is accepted as it is.
\<close>

definition parse_offset :: "params \<Rightarrow> int" where
  "parse_offset p =
     (case map_of p ''offset'' of
        None \<Rightarrow> 0
      | Some s \<Rightarrow> (case py_int_of_str s of None \<Rightarrow> 0 | Some n \<Rightarrow> n))"

text \<open>
  \<open>_generatePaginationLinks\<close>: both links are built from one copy of the
  parameters, whose \<open>'offset'\<close> entry is overwritten before each
  \<open>urlencode\<close>; the previous link is built (and may raise) first.
\<close>

definition generatePaginationLinks ::
  "py_value \<Rightarrow> int \<Rightarrow> int \<Rightarrow> int \<Rightarrow> params \<Rightarrow> (link option \<times> link option) result" where
  "generatePaginationLinks cfg offsetval returned_count number_found params =
     (case getDocLimit cfg of
        Inl e \<Rightarrow> Inl e
      | Inr doc_limit \<Rightarrow>
          (case (if 0 \<le> offsetval - doc_limit
                 then map_sum id Some (urlencode (put ''offset'' (py_str_int (offsetval - doc_limit)) params))
                 else Inr None) of
             Inl e \<Rightarrow> Inl e
           | Inr prev_link \<Rightarrow>
               (case (if offsetval + doc_limit \<le> OFFSET_LIMIT \<and> returned_count = doc_limit
                           \<and> offsetval + returned_count < number_found
                      then map_sum id Some (urlencode (put ''offset'' (py_str_int (offsetval + doc_limit)) params))
                      else Inr None) of
                  Inl e \<Rightarrow> Inl e
                | Inr next_link \<Rightarrow> Inr (prev_link, next_link))))"

section \<open>The contract of spec section 4.1\<close>

definition compute_links :: "int \<Rightarrow> int \<Rightarrow> int \<Rightarrow> int \<Rightarrow> int \<Rightarrow> int option \<times> int option" where
  "compute_links offset page_size returned total_found max_offset =
     ((if 0 \<le> offset - page_size then Some (offset - page_size) else None),
      (if offset + page_size \<le> max_offset \<and> returned = page_size \<and> offset + returned < total_found
       then Some (offset + page_size) else None))"

section \<open>Lemmas\<close>

named_theorems link_eval \<open>facts that evaluate the links of concrete requests\<close>

declare ascii_value_def [link_eval] OFFSET_LIMIT_def [link_eval]

lemma ascii_params_Nil [simp]: "ascii_params []"
  by (simp add: ascii_params_def)

lemma ascii_params_Cons [simp]: "ascii_params ((k, v) # p) \<longleftrightarrow> ascii_value v \<and> ascii_params p"
  by (simp add: ascii_params_def)

lemma getDocLimit_DOC_LIMIT [simp]: "getDocLimit DOC_LIMIT = Inr 3"
  by (simp add: getDocLimit_def DOC_LIMIT_def)

lemma ascii_py_str_int [simp]: "ascii_value (py_str_int i)"
  by (simp add: ascii_value_def py_str_int_ascii)

lemma ascii_params_put [simp]:
  "ascii_value v \<Longrightarrow> ascii_params p \<Longrightarrow> ascii_params (put k v p)"
  using set_put_subset [of k v p] by (auto simp: ascii_params_def)

lemma urlencode_ascii [simp]: "ascii_params p \<Longrightarrow> urlencode p = Inr p"
  by (simp add: urlencode_def)

lemma link_offset_put [simp]: "link_offset (put ''offset'' (py_str_int i) p) = Some i"
  by (simp add: link_offset_def)

lemma parse_offset_put [simp]: "parse_offset (put ''offset'' (py_str_int i) p) = i"
  by (simp add: parse_offset_def)

text \<open>The links on ASCII parameters, one equation per outcome of the guards.\<close>

lemma generatePaginationLinks_ascii [link_eval]:
  assumes "getDocLimit cfg = Inr dl" and "ascii_params p"
  shows "generatePaginationLinks cfg off rc nf p =
    Inr ((if 0 \<le> off - dl then Some (put ''offset'' (py_str_int (off - dl)) p) else None),
         (if off + dl \<le> OFFSET_LIMIT \<and> rc = dl \<and> off + rc < nf
          then Some (put ''offset'' (py_str_int (off + dl)) p) else None))"
  using assms by (simp add: generatePaginationLinks_def)

lemma generatePaginationLinks_Inr:
  assumes "generatePaginationLinks cfg off rc nf p = Inr (pl, nl)"
  obtains dl where "getDocLimit cfg = Inr dl"
    and "pl = (if 0 \<le> off - dl then Some (put ''offset'' (py_str_int (off - dl)) p) else None)"
    and "nl = (if off + dl \<le> OFFSET_LIMIT \<and> rc = dl \<and> off + rc < nf
               then Some (put ''offset'' (py_str_int (off + dl)) p) else None)"
  using assms
  by (auto simp: generatePaginationLinks_def urlencode_def split: sum.splits if_splits)

lemma put_keeps_other:
  "(k', v') \<in> set p \<Longrightarrow> k' \<noteq> k \<Longrightarrow> (k', v') \<in> set (put k v p)"
  by (induction p) (auto simp: put_def)

lemma not_ascii_put:
  "(k', v') \<in> set p \<Longrightarrow> k' \<noteq> k \<Longrightarrow> \<not> ascii_value v' \<Longrightarrow> \<not> ascii_params (put k v p)"
  by (auto simp: ascii_params_def dest: put_keeps_other)

section \<open>Properties of the pagination links\<close>

text \<open>
  C1. Refinement of the contract of spec section 4.1: on ASCII parameters the link
  generator never raises, and the offsets its links carry (read back as the next
  request reads them) are exactly the previous and next offsets of
  \<open>compute_links\<close>, for the configured page size and \<open>_OFFSET_LIMIT\<close>.
\<close>

theorem pagination_refines_contract:
  assumes "getDocLimit cfg = Inr dl" and "ascii_params p"
  shows "\<exists>pl nl. generatePaginationLinks cfg off rc nf p = Inr (pl, nl)
           \<and> map_option link_offset pl = map_option Some (fst (compute_links off dl rc nf OFFSET_LIMIT))
           \<and> map_option link_offset nl = map_option Some (snd (compute_links off dl rc nf OFFSET_LIMIT))"
  using assms by (simp add: generatePaginationLinks_ascii compute_links_def)

theorem pagination_refines_contract_witness:
  "getDocLimit DOC_LIMIT = Inr 3 \<and> ascii_params [(''query'', ''shoes'')] \<and>
   (\<exists>pl nl. generatePaginationLinks DOC_LIMIT 3 3 10 [(''query'', ''shoes'')] = Inr (pl, nl)
     \<and> map_option link_offset pl = map_option Some (fst (compute_links 3 3 3 10 OFFSET_LIMIT))
     \<and> map_option link_offset nl = map_option Some (snd (compute_links 3 3 3 10 OFFSET_LIMIT)))"
proof -
  have a: "ascii_params [(''query'', ''shoes'')]" by (simp add: link_eval)
  show ?thesis using pagination_refines_contract [OF getDocLimit_DOC_LIMIT a, of 3 3 10] a by simp
qed

text \<open>
  C2. Spec section 8: for a non-negative offset and a non-negative returned count, no
  link carries a negative offset. (The page size needs no hypothesis: a next link
  requires the returned count to equal it.)
\<close>

theorem pagination_offsets_nonneg:
  assumes "0 \<le> off" and "0 \<le> rc"
    and "generatePaginationLinks cfg off rc nf p = Inr (pl, nl)"
    and "l \<in> set_option pl \<union> set_option nl"
  shows "\<exists>n. link_offset l = Some n \<and> 0 \<le> n"
  using assms(3)
proof (rule generatePaginationLinks_Inr)
  fix dl
  assume "pl = (if 0 \<le> off - dl then Some (put ''offset'' (py_str_int (off - dl)) p) else None)"
    and "nl = (if off + dl \<le> OFFSET_LIMIT \<and> rc = dl \<and> off + rc < nf
               then Some (put ''offset'' (py_str_int (off + dl)) p) else None)"
  with assms(1,2,4) show ?thesis by (auto split: if_splits)
qed

lemma example_links:
  "generatePaginationLinks DOC_LIMIT 3 3 10 [(''query'', ''shoes'')] =
      Inr (Some (put ''offset'' (py_str_int 0) [(''query'', ''shoes'')]),
           Some (put ''offset'' (py_str_int 6) [(''query'', ''shoes'')]))"
  by (simp add: link_eval)

theorem pagination_offsets_nonneg_witness:
  "0 \<le> (3::int) \<and> 0 \<le> (3::int) \<and>
   generatePaginationLinks DOC_LIMIT 3 3 10 [(''query'', ''shoes'')] =
      Inr (Some (put ''offset'' (py_str_int 0) [(''query'', ''shoes'')]),
           Some (put ''offset'' (py_str_int 6) [(''query'', ''shoes'')])) \<and>
   (\<exists>n. link_offset (put ''offset'' (py_str_int 6) [(''query'', ''shoes'')]) = Some n \<and> 0 \<le> n)"
  using pagination_offsets_nonneg [OF _ _ example_links, of "put ''offset'' (py_str_int 6) [(''query'', ''shoes'')]"]
    example_links by simp

text \<open>
  C3. Spec section 8: a short page (fewer results than the page size) never has a next
  link.
\<close>

theorem short_page_no_next:
  assumes "getDocLimit cfg = Inr dl" and "rc < dl"
    and "generatePaginationLinks cfg off rc nf p = Inr (pl, nl)"
  shows "nl = None"
  using assms(3)
proof (rule generatePaginationLinks_Inr)
  fix dl'
  assume "getDocLimit cfg = Inr dl'"
    and "nl = (if off + dl' \<le> OFFSET_LIMIT \<and> rc = dl' \<and> off + rc < nf
               then Some (put ''offset'' (py_str_int (off + dl')) p) else None)"
  with assms(1,2) show ?thesis by simp
qed

theorem short_page_no_next_witness:
  "getDocLimit DOC_LIMIT = Inr 3 \<and> (1::int) < 3 \<and>
   generatePaginationLinks DOC_LIMIT 9 1 10 [(''query'', ''shoes'')] =
     Inr (Some (put ''offset'' (py_str_int 6) [(''query'', ''shoes'')]), None)"
proof -
  have g: "generatePaginationLinks DOC_LIMIT 9 1 10 [(''query'', ''shoes'')] =
     Inr (Some (put ''offset'' (py_str_int 6) [(''query'', ''shoes'')]), None)"
    by (simp add: link_eval)
  have "None = (None :: link option)"
    by (rule short_page_no_next [OF getDocLimit_DOC_LIMIT _ g]) simp
  with g show ?thesis by simp
qed

text \<open>
  C4. Spec section 8: on the first page with nothing returned there is no previous
  link, for any positive page size.
\<close>

theorem first_page_no_prev:
  assumes "getDocLimit cfg = Inr dl" and "0 < dl"
    and "generatePaginationLinks cfg 0 0 nf p = Inr (pl, nl)"
  shows "pl = None \<and> nl = None"
  using assms(3)
proof (rule generatePaginationLinks_Inr)
  fix dl'
  assume "getDocLimit cfg = Inr dl'"
    and "pl = (if 0 \<le> 0 - dl' then Some (put ''offset'' (py_str_int (0 - dl')) p) else None)"
    and "nl = (if 0 + dl' \<le> OFFSET_LIMIT \<and> 0 = dl' \<and> 0 + 0 < nf
               then Some (put ''offset'' (py_str_int (0 + dl')) p) else None)"
  with assms(1,2) show ?thesis by simp
qed

theorem first_page_no_prev_witness:
  "getDocLimit DOC_LIMIT = Inr 3 \<and> (0::int) < 3 \<and>
   generatePaginationLinks DOC_LIMIT 0 0 0 [(''query'', ''shoes'')] = Inr (None, None)"
proof -
  have g: "generatePaginationLinks DOC_LIMIT 0 0 0 [(''query'', ''shoes'')] = Inr (None, None)"
    by (simp add: link_eval)
  from first_page_no_prev [OF getDocLimit_DOC_LIMIT _ g] g show ?thesis by simp
qed

text \<open>
  C5. Bounds: a previous link steps back by exactly the page size; a next link steps
  forward by the page size, lands exactly after the last result shown
  (\<open>offset + returned_count\<close>) and never beyond \<open>_OFFSET_LIMIT\<close>.
\<close>

theorem pagination_link_bounds:
  assumes "getDocLimit cfg = Inr dl"
    and "generatePaginationLinks cfg off rc nf p = Inr (pl, nl)"
  shows "(\<forall>l \<in> set_option pl. link_offset l = Some (off - dl) \<and> 0 \<le> off - dl)
       \<and> (\<forall>l \<in> set_option nl. link_offset l = Some (off + rc) \<and> off + rc = off + dl
            \<and> off + dl \<le> OFFSET_LIMIT \<and> off + rc < nf)"
  using assms(2)
proof (rule generatePaginationLinks_Inr)
  fix dl'
  assume "getDocLimit cfg = Inr dl'"
    and "pl = (if 0 \<le> off - dl' then Some (put ''offset'' (py_str_int (off - dl')) p) else None)"
    and "nl = (if off + dl' \<le> OFFSET_LIMIT \<and> rc = dl' \<and> off + rc < nf
               then Some (put ''offset'' (py_str_int (off + dl')) p) else None)"
  with assms(1) show ?thesis by simp
qed

theorem pagination_link_bounds_witness:
  "getDocLimit DOC_LIMIT = Inr 3 \<and>
   generatePaginationLinks DOC_LIMIT 3 3 10 [(''query'', ''shoes'')] =
      Inr (Some (put ''offset'' (py_str_int 0) [(''query'', ''shoes'')]),
           Some (put ''offset'' (py_str_int 6) [(''query'', ''shoes'')])) \<and>
   link_offset (put ''offset'' (py_str_int 6) [(''query'', ''shoes'')]) = Some (3 + 3) \<and>
   (3::int) + 3 \<le> OFFSET_LIMIT"
  using pagination_link_bounds [OF getDocLimit_DOC_LIMIT example_links] example_links by simp

text \<open>
  C6. Error path: when another parameter holds a non-ASCII value, the generator
  raises \<open>UnicodeEncodeError\<close> (Python 2 \<open>urlencode\<close> calls \<open>str()\<close> on the
  unicode value) exactly when a link is due, the previous one or only the next one,
  and returns no links otherwise.
\<close>

theorem pagination_unicode_error:
  assumes "getDocLimit cfg = Inr dl"
    and "(k, v) \<in> set p" and "k \<noteq> ''offset''" and "\<not> ascii_value v"
  shows "generatePaginationLinks cfg off rc nf p =
    (if 0 \<le> off - dl \<or> (off + dl \<le> OFFSET_LIMIT \<and> rc = dl \<and> off + rc < nf)
     then Inl (UnicodeEncodeError ''ascii codec can't encode character'') else Inr (None, None))"
proof -
  have "\<not> ascii_params (put ''offset'' (py_str_int i) p)" for i
    using assms(2-4) by (rule not_ascii_put)
  with assms(1) show ?thesis
    by (simp add: generatePaginationLinks_def urlencode_def)
qed

theorem pagination_unicode_error_witness:
  "getDocLimit DOC_LIMIT = Inr 3 \<and>
   (''query'', [CHR 0xE9]) \<in> set [(''query'', [CHR 0xE9])] \<and> ''query'' \<noteq> ''offset'' \<and>
   \<not> ascii_value [CHR 0xE9] \<and>
   generatePaginationLinks DOC_LIMIT 0 3 10 [(''query'', [CHR 0xE9])] =
     Inl (UnicodeEncodeError ''ascii codec can't encode character'')"
proof -
  have n: "\<not> ascii_value [CHR 0xE9]" by (simp add: ascii_value_def)
  show ?thesis
    using pagination_unicode_error [OF getDocLimit_DOC_LIMIT _ _ n, of "''query''" "[(''query'', [CHR 0xE9])]" 0 3 10] n
    by (simp add: OFFSET_LIMIT_def)
qed

text \<open>
  C7. Spec divergence: spec section 4.2 asks that an offset that is not a non-negative
  integer fall back to 0, but \<open>int()\<close> accepts a negative literal: a request whose
  \<open>offset\<close> is any negative integer \<open>n\<close> is searched at offset \<open>n\<close>, and with a full
  page and more results it gets no previous link and a next link to offset
  \<open>n + page size\<close>, itself negative when \<open>n\<close> is below minus the page size.
\<close>

theorem negative_offset_accepted:
  assumes "n < 0" and "getDocLimit cfg = Inr dl" and "0 \<le> dl" and "dl \<le> OFFSET_LIMIT"
    and "map_of p ''offset'' = Some (py_str_int n)" and "ascii_params p" and "n + dl < nf"
  shows "parse_offset p = n \<and>
    (\<exists>l. generatePaginationLinks cfg (parse_offset p) dl nf p = Inr (None, Some l)
         \<and> link_offset l = Some (n + dl))"
proof -
  have "parse_offset p = n" using assms(5) by (simp add: parse_offset_def)
  moreover have "n + dl \<le> OFFSET_LIMIT" using assms(1,4) by simp
  ultimately show ?thesis
    using assms(1-3,6,7) by (simp add: generatePaginationLinks_ascii)
qed

theorem negative_offset_accepted_witness:
  "parse_offset [(''offset'', py_str_int (-6))] = -6 \<and>
   (\<exists>l. generatePaginationLinks DOC_LIMIT (parse_offset [(''offset'', py_str_int (-6))]) 3 10
          [(''offset'', py_str_int (-6))] = Inr (None, Some l) \<and> link_offset l = Some (-6 + 3))"
  by (rule negative_offset_accepted) (simp_all add: OFFSET_LIMIT_def)

end
