(* ===== verification/Query.thy ===== *)
theory Query
  imports PyBuiltins
begin

text \<open>
  Query composition of \<open>ProductSearchHandler\<close> (\<open>src/handlers.py\<close>): the category
  restriction that \<open>doProductSearch\<close> appends to the user's query, and
  \<open>_buildQuery\<close>, which packs the query string, the result window and the sort,
  snippet and projection options into a \<open>search.Query\<close>. The field names are the
  constants of \<open>docs.Product\<close>, a module that is not among the sources; they are
  modelled from spec section 4.2 and the names the handlers use. The non-relevance
  branch of \<open>_buildQuery\<close> is inside a string literal, so for any other sort key
  the method returns an unbound local variable.
\<close>

section \<open>docs.Product field names\<close>

definition PID :: string where "PID = ''pid''"
definition DESCRIPTION :: string where "DESCRIPTION = ''description''"
definition CATEGORY :: string where "CATEGORY = ''category''"
definition PRICE :: string where "PRICE = ''price''"
definition PRODUCT_NAME :: string where "PRODUCT_NAME = ''name''"

section \<open>The category restriction\<close>

text \<open>
  \<open>if categoryq: query += ' %s:"%s"' % (docs.Product.CATEGORY, categoryq)\<close>:
  \<open>categoryq\<close> is \<open>params.get('category')\<close>, so it may be \<open>None\<close>.
\<close>

definition add_category_filter :: "string \<Rightarrow> string option \<Rightarrow> string" where
  "add_category_filter query categoryq =
     (case categoryq of
        Some c \<Rightarrow> if c \<noteq> [] then query @ '' '' @ CATEGORY @ '':'' @ [CHR 0x22] @ c @ [CHR 0x22] else query
      | None \<Rightarrow> query)"

section \<open>search.Query\<close>

datatype sort_options = MatchScorer

record field_expression =
  fe_name :: string
  fe_expression :: string

record search_query =
  sq_query_string :: string
  sq_limit :: int
  sq_offset :: int
  sq_sort_options :: sort_options
  sq_snippeted_fields :: "string list"
  sq_returned_expressions :: "field_expression list"
  sq_returned_fields :: "string list"

text \<open>
  \<open>_buildQuery(query, sortq, sort_dict, doc_limit, offsetval)\<close>; \<open>sort_dict\<close> is
  read only by the dead branch and is left out. Reaching \<open>return search_query\<close>
  without the assignment raises \<open>UnboundLocalError\<close>.
\<close>

definition buildQuery :: "string \<Rightarrow> string \<Rightarrow> int \<Rightarrow> int \<Rightarrow> search_query result" where
  "buildQuery query sortq doc_limit offsetval =
     (let computed_expr = \<lparr>fe_name = ''adjusted_price'', fe_expression = ''price * 1.08''\<rparr>;
          returned_fields = [PID, DESCRIPTION, CATEGORY, PRICE, PRODUCT_NAME]
      in if sortq = ''relevance''
         then Inr \<lparr>sq_query_string = py_strip query, sq_limit = doc_limit, sq_offset = offsetval,
                   sq_sort_options = MatchScorer, sq_snippeted_fields = [DESCRIPTION],
                   sq_returned_expressions = [computed_expr], sq_returned_fields = returned_fields\<rparr>
         else Inl (UnboundLocalError ''local variable 'search_query' referenced before assignment''))"

section \<open>Reading a quoted atom\<close>

text \<open>
  How the search service's query language reads a quoted value: everything up to the
  next double quote is one atom. \<open>read_quoted s\<close> gives the atom and what follows the
  closing quote, or \<open>None\<close> when the quote is not closed. The query language also
  reads a backslash inside a quoted string as an escape; \<open>read_quoted\<close> does not,
  which only matters for a category holding a backslash or a quote, and the handler
  escapes neither.
\<close>

fun read_quoted :: "string \<Rightarrow> (string \<times> string) option" where
  "read_quoted [] = None"
| "read_quoted (c # cs) =
     (if c = CHR 0x22 then Some ([], cs) else map_option (\<lambda>(v, r). (c # v, r)) (read_quoted cs))"

section \<open>Lemmas\<close>

lemma read_quoted_append:
  "CHR 0x22 \<notin> set v \<Longrightarrow> read_quoted (v @ CHR 0x22 # r) = Some (v, r)"
  by (induction v) auto

lemma read_quoted_split:
  "CHR 0x22 \<in> set v \<Longrightarrow> \<exists>a b. read_quoted (v @ CHR 0x22 # r) = Some (a, b) \<and> a \<noteq> v"
proof (induction v)
  case Nil
  then show ?case by simp
next
  case (Cons x v)
  show ?case
  proof (cases "x = CHR 0x22")
    case True
    then show ?thesis by simp
  next
    case False
    with Cons obtain a b where "read_quoted (v @ CHR 0x22 # r) = Some (a, b)" and "a \<noteq> v" by auto
    with False show ?thesis by simp
  qed
qed

lemma quote_not_space [simp]: "\<not> is_space (CHR 0x22)"
  by (simp add: is_space_def py_whitespace_def)

lemma strip_ends_quote:
  "py_strip (s @ [CHR 0x22]) = dropWhile is_space (s @ [CHR 0x22])"
  by (simp add: py_strip_def dropWhile_append3)

lemma dropWhile_suffix: "\<exists>p. xs = p @ dropWhile P xs"
  by (metis takeWhile_dropWhile_id)

lemma add_category_filter_Some:
  "c \<noteq> [] \<Longrightarrow> add_category_filter q (Some c) = q @ '' '' @ CATEGORY @ '':'' @ CHR 0x22 # c @ [CHR 0x22]"
  by (simp add: add_category_filter_def)

lemma c_not_space [simp]: "\<not> is_space CHR ''c''"
  by (simp add: is_space_def py_whitespace_def)

lemma strip_filtered_query:
  "\<exists>p. py_strip (q @ '' '' @ CATEGORY @ '':'' @ CHR 0x22 # c @ [CHR 0x22])
        = p @ CATEGORY @ '':'' @ CHR 0x22 # c @ [CHR 0x22]"
proof -
  let ?ys = "CATEGORY @ '':'' @ CHR 0x22 # c @ [CHR 0x22]"
  have ys: "dropWhile is_space ?ys = ?ys" by (simp add: CATEGORY_def)
  have "py_strip ((q @ '' '') @ ?ys) = dropWhile is_space ((q @ '' '') @ ?ys)"
    using strip_ends_quote [of "(q @ '' '') @ CATEGORY @ '':'' @ CHR 0x22 # c"] by simp
  also have "\<dots> = (if \<forall>x \<in> set (q @ '' ''). is_space x then ?ys
                    else dropWhile is_space (q @ '' '') @ ?ys)"
    using ys by (simp only: dropWhile_append)
  finally show ?thesis by (metis append.left_neutral append.assoc)
qed

section \<open>Properties of query composition\<close>

text \<open>
  C8. Spec section 4.2: the category value is appended as one quoted atom. For a
  non-empty category, the text after \<open>category:"\<close> reads back (up to the closing
  quote, with nothing after it) as exactly the category value if and only if the value
  contains no double quote; the code does not escape quotes, so a value with one is
  split into several tokens.
\<close>

theorem category_filter_atomic:
  assumes "c \<noteq> []"
  shows "(\<exists>rest. add_category_filter q (Some c) = q @ '' '' @ CATEGORY @ '':'' @ CHR 0x22 # rest
                 \<and> read_quoted rest = Some (c, [])) \<longleftrightarrow> CHR 0x22 \<notin> set c"
proof
  assume "\<exists>rest. add_category_filter q (Some c) = q @ '' '' @ CATEGORY @ '':'' @ CHR 0x22 # rest
                 \<and> read_quoted rest = Some (c, [])"
  then obtain rest where r: "rest = c @ [CHR 0x22]" and rq: "read_quoted rest = Some (c, [])"
    using assms by (auto simp: add_category_filter_Some)
  show "CHR 0x22 \<notin> set c"
  proof
    assume "CHR 0x22 \<in> set c"
    then obtain a b where "read_quoted (c @ [CHR 0x22]) = Some (a, b)" and "a \<noteq> c"
      using read_quoted_split [of c "[]"] by auto
    with r rq show False by simp
  qed
next
  assume "CHR 0x22 \<notin> set c"
  then have "read_quoted (c @ [CHR 0x22]) = Some (c, [])"
    using read_quoted_append [of c "[]"] by simp
  with assms show "\<exists>rest. add_category_filter q (Some c) = q @ '' '' @ CATEGORY @ '':'' @ CHR 0x22 # rest
                 \<and> read_quoted rest = Some (c, [])"
    by (auto simp: add_category_filter_Some)
qed

theorem category_filter_atomic_witness:
  "''Laptops'' \<noteq> [] \<and>
   (\<exists>rest. add_category_filter ''shoes'' (Some ''Laptops'') = ''shoes'' @ '' '' @ CATEGORY @ '':'' @ CHR 0x22 # rest
          \<and> read_quoted rest = Some (''Laptops'', []))
   \<and> \<not> (\<exists>rest. add_category_filter ''shoes'' (Some [CHR ''a'', CHR 0x22, CHR ''b'']) =
          ''shoes'' @ '' '' @ CATEGORY @ '':'' @ CHR 0x22 # rest
          \<and> read_quoted rest = Some ([CHR ''a'', CHR 0x22, CHR ''b''], []))"
proof -
  have a: "''Laptops'' \<noteq> []" and b: "[CHR ''a'', CHR 0x22, CHR ''b''] \<noteq> []" by simp_all
  show ?thesis
    using category_filter_atomic [OF a, of "''shoes''"] category_filter_atomic [OF b, of "''shoes''"]
    by simp
qed

text \<open>
  C9. What the handler sends for a relevance search filtered by a category without
  quotes: the query string is the filtered query stripped of surrounding whitespace
  (it starts with no space and ends with the closing quote), it ends with the atomic
  restriction on the category field, read back as the category value, and the query
  carries the requested result window, a snippet of the description and the fixed
  summary fields.
\<close>

theorem relevance_query_spec:
  assumes "c \<noteq> []" and "CHR 0x22 \<notin> set c"
    and "buildQuery (add_category_filter q (Some c)) ''relevance'' dl off = Inr sq"
  shows "sq_query_string sq = py_strip (add_category_filter q (Some c))
       \<and> \<not> is_space (hd (sq_query_string sq)) \<and> last (sq_query_string sq) = CHR 0x22
       \<and> (\<exists>p rest. sq_query_string sq = p @ CATEGORY @ '':'' @ CHR 0x22 # rest
              \<and> read_quoted rest = Some (c, []))
       \<and> sq_limit sq = dl \<and> sq_offset sq = off
       \<and> sq_snippeted_fields sq = [DESCRIPTION]
       \<and> sq_returned_fields sq = [PID, DESCRIPTION, CATEGORY, PRICE, PRODUCT_NAME]"
proof -
  obtain p where p: "py_strip (add_category_filter q (Some c)) = p @ CATEGORY @ '':'' @ CHR 0x22 # c @ [CHR 0x22]"
    using strip_filtered_query [of q c] assms(1) by (auto simp: add_category_filter_Some)
  have rq: "read_quoted (c @ [CHR 0x22]) = Some (c, [])"
    using read_quoted_append [OF assms(2), of "[]"] by simp
  have s: "sq_query_string sq = py_strip (add_category_filter q (Some c))"
    using assms(3) by (auto simp: buildQuery_def Let_def split: if_splits)
  with p have q: "sq_query_string sq = p @ CATEGORY @ '':'' @ CHR 0x22 # c @ [CHR 0x22]" by simp
  then have "\<not> is_space (hd (sq_query_string sq)) \<and> last (sq_query_string sq) = CHR 0x22"
    using py_strip_ends [of "add_category_filter q (Some c)"] s by simp
  moreover have "\<exists>p rest. sq_query_string sq = p @ CATEGORY @ '':'' @ CHR 0x22 # rest
              \<and> read_quoted rest = Some (c, [])"
    using q rq by (intro exI [of _ p] exI [of _ "c @ [CHR 0x22]"]) simp
  moreover have "sq_limit sq = dl \<and> sq_offset sq = off
       \<and> sq_snippeted_fields sq = [DESCRIPTION]
       \<and> sq_returned_fields sq = [PID, DESCRIPTION, CATEGORY, PRICE, PRODUCT_NAME]"
    using assms(3) by (auto simp: buildQuery_def Let_def split: if_splits)
  ultimately show ?thesis using s by blast
qed

lemma example_query:
  "buildQuery (add_category_filter '' shoes'' (Some ''Laptops'')) ''relevance'' 3 0 =
     Inr \<lparr>sq_query_string = ''shoes category:'' @ CHR 0x22 # ''Laptops'' @ [CHR 0x22],
          sq_limit = 3, sq_offset = 0, sq_sort_options = MatchScorer,
          sq_snippeted_fields = [DESCRIPTION],
          sq_returned_expressions = [\<lparr>fe_name = ''adjusted_price'', fe_expression = ''price * 1.08''\<rparr>],
          sq_returned_fields = [PID, DESCRIPTION, CATEGORY, PRICE, PRODUCT_NAME]\<rparr>"
  by (simp add: buildQuery_def add_category_filter_def CATEGORY_def py_strip_def is_space_def
      py_whitespace_def)

theorem relevance_query_spec_witness:
  "''Laptops'' \<noteq> [] \<and> CHR 0x22 \<notin> set ''Laptops'' \<and>
   buildQuery (add_category_filter '' shoes'' (Some ''Laptops'')) ''relevance'' 3 0 =
     Inr \<lparr>sq_query_string = ''shoes category:'' @ CHR 0x22 # ''Laptops'' @ [CHR 0x22],
          sq_limit = 3, sq_offset = 0, sq_sort_options = MatchScorer,
          sq_snippeted_fields = [DESCRIPTION],
          sq_returned_expressions = [\<lparr>fe_name = ''adjusted_price'', fe_expression = ''price * 1.08''\<rparr>],
          sq_returned_fields = [PID, DESCRIPTION, CATEGORY, PRICE, PRODUCT_NAME]\<rparr> \<and>
   ''shoes category:'' @ CHR 0x22 # ''Laptops'' @ [CHR 0x22] = py_strip (add_category_filter '' shoes'' (Some ''Laptops'')) \<and>
   (\<exists>p rest. ''shoes category:'' @ CHR 0x22 # ''Laptops'' @ [CHR 0x22] = p @ CATEGORY @ '':'' @ CHR 0x22 # rest
              \<and> read_quoted rest = Some (''Laptops'', []))"
proof -
  have a: "''Laptops'' \<noteq> []" and b: "CHR 0x22 \<notin> set ''Laptops''" by simp_all
  from relevance_query_spec [OF a b example_query, simplified search_query.select_convs]
  have "''shoes category:'' @ CHR 0x22 # ''Laptops'' @ [CHR 0x22] = py_strip (add_category_filter '' shoes'' (Some ''Laptops'')) \<and>
    (\<exists>p rest. ''shoes category:'' @ CHR 0x22 # ''Laptops'' @ [CHR 0x22] = p @ CATEGORY @ '':'' @ CHR 0x22 # rest
              \<and> read_quoted rest = Some (''Laptops'', []))"
    by blast
  with a b example_query show ?thesis by (intro conjI) (assumption | (elim conjE, assumption))+
qed

text \<open>
  C10. Divergence from spec section 4.2: any sort key other than \<open>relevance\<close> (the
  two-level sort the spec describes is commented out inside a string literal) makes
  \<open>_buildQuery\<close> raise \<open>UnboundLocalError\<close> instead of returning a query.
\<close>

theorem buildQuery_other_sort_unbound:
  assumes "sortq \<noteq> ''relevance''"
  shows "buildQuery q sortq dl off = Inl (UnboundLocalError ''local variable 'search_query' referenced before assignment'')"
  using assms by (simp add: buildQuery_def Let_def)

theorem buildQuery_other_sort_unbound_witness:
  "''price'' \<noteq> ''relevance'' \<and>
   buildQuery ''shoes'' ''price'' 3 0 = Inl (UnboundLocalError ''local variable 'search_query' referenced before assignment'')"
  using buildQuery_other_sort_unbound [of "''price''" "''shoes''" 3 0] by simp

end
