(* ===== verification/Categories.thy ===== *)
theory Categories
  imports Prelude
begin

text \<open>
  The category tree: the static data of \<open>src/categories.py\<close> and the class
  \<open>Category\<close> of \<open>src/models.py\<close>. A category entity is keyed by its name and
  stores the key of its parent (\<open>parent_category\<close>); the kind is an association
  list from names to optional parent names, written by \<open>put\<close>. The class-level
  cache \<open>_CATEGORY_INFO\<close> is part of the state (\<open>_CATEGORY_DICT\<close> and
  \<open>_RCATEGORY_DICT\<close> are never assigned and are left out). A category datum is a
  Python dictionary with optional keys \<open>name\<close> and \<open>children\<close>; it is empty (false)
  when it has neither.
\<close>

section \<open>categories.py\<close>

datatype cat_data = CatDict (cd_name: "string option") (cd_children: "cat_data list option")

definition smartphones :: cat_data where
  "smartphones = CatDict (Some ''smartphones'') (Some [])"

definition laptops :: cat_data where
  "laptops = CatDict (Some ''Laptops'') (Some [])"

definition ctree :: cat_data where
  "ctree = CatDict (Some ''root'') (Some [smartphones, laptops])"

section \<open>models.Category\<close>

type_synonym cat_store = "(string, string option) kind_store"

definition ROOT :: string where
  "ROOT = ''root''"

record category_class =
  cat_store :: cat_store
  CATEGORY_INFO :: "(string \<times> string) list option"

text \<open>An entity of the kind is its key name with its parent's; \<open>category_name\<close> is the key's id.\<close>

definition category_name :: "string \<times> string option \<Rightarrow> string" where
  "category_name c = fst c"

text \<open>
  \<open>buildCategory\<close> and \<open>buildChildCategories\<close>. A datum without a name reaches
  \<open>logging.warn('no category name for %s', category)\<close>, whose argument
  \<open>category\<close> is an unbound name: the call raises \<open>NameError\<close>, which ends the whole
  build; every entity put before stays. Iterating over missing children
  (\<open>category_data.get('children')\<close> is \<open>None\<close>) raises \<open>TypeError\<close>.
\<close>

definition no_name_error :: py_error where
  "no_name_error = NameError ''global name 'category' is not defined''"

fun buildCategory :: "cat_data \<Rightarrow> string option \<Rightarrow> cat_store \<Rightarrow> cat_store outcome"
and buildChildCategories :: "cat_data list option \<Rightarrow> string option \<Rightarrow> cat_store \<Rightarrow> cat_store outcome"
where
  "buildCategory (CatDict nm ch) parent_key st =
     (if nm = None \<and> ch = None then (st, None)
      else case nm of
        None \<Rightarrow> (st, Some no_name_error)
      | Some cname \<Rightarrow>
          if cname = [] then (st, Some no_name_error)
          else buildChildCategories ch (Some cname) (put cname parent_key st))"
| "buildChildCategories None parent_key st =
     (st, Some (TypeError ''NoneType object is not iterable''))"
| "buildChildCategories (Some []) parent_key st = (st, None)"
| "buildChildCategories (Some (c # cs)) parent_key st =
     (case buildCategory c parent_key st of
        (st', Some e) \<Rightarrow> (st', Some e)
      | (st', None) \<Rightarrow> buildChildCategories (Some cs) parent_key st')"

text \<open>\<open>buildAllCategories\<close>: nothing when any category exists (\<open>cls.query().get()\<close>).\<close>

definition buildAllCategories :: "cat_store \<Rightarrow> cat_store outcome" where
  "buildAllCategories st = (if st \<noteq> [] then (st, None) else buildCategory ctree None st)"

text \<open>
  The menu entries of \<open>getCategoryInfo\<close>: the categories as \<open>cls.query().fetch()\<close>
  returns them (ordered by key, that is by name), the root left out.
\<close>

definition category_info :: "cat_store \<Rightarrow> (string \<times> string) list" where
  "category_info st = map (\<lambda>k. (k, k)) (filter (\<lambda>k. k \<noteq> ROOT) (sort (map fst st)))"

text \<open>
  \<open>getCategoryInfo\<close>: recompute when the cache is \<open>None\<close> or empty (both false in
  Python), else return the cache. An exception from the build leaves the cache as it
  was and keeps the writes made.
\<close>

definition getCategoryInfo :: "category_class \<Rightarrow> category_class \<times> (string \<times> string) list result" where
  "getCategoryInfo c =
     (if CATEGORY_INFO c = None \<or> CATEGORY_INFO c = Some []
      then (case buildAllCategories (cat_store c) of
              (st, Some e) \<Rightarrow> (c\<lparr>cat_store := st\<rparr>, Inl e)
            | (st, None) \<Rightarrow>
                (c\<lparr>cat_store := st, CATEGORY_INFO := Some (category_info st)\<rparr>, Inr (category_info st)))
      else (c, Inr (case CATEGORY_INFO c of Some xs \<Rightarrow> xs | None \<Rightarrow> [])))"

section \<open>The abstract tree\<close>

text \<open>
  A well-formed datum has a non-empty name and a list of children at every node; its
  edges, in the depth-first order the build visits them, are the pairs of a name and
  its parent's name.
\<close>

fun wf_cat :: "cat_data \<Rightarrow> bool" where
  "wf_cat (CatDict (Some n) (Some cs)) = (n \<noteq> [] \<and> (\<forall>c \<in> set cs. wf_cat c))"
| "wf_cat _ = False"

fun tree_edges :: "cat_data \<Rightarrow> string option \<Rightarrow> (string \<times> string option) list" where
  "tree_edges (CatDict (Some n) (Some cs)) p = (n, p) # concat (map (\<lambda>c. tree_edges c (Some n)) cs)"
| "tree_edges _ p = []"

text \<open>
  The shape spec section 3 asks of the stored categories: keys are unique, exactly one
  category has no parent, every parent is a stored category, and the parent relation
  has no cycle.
\<close>

definition parent_rel :: "cat_store \<Rightarrow> (string \<times> string) set" where
  "parent_rel st = {(k, q). (k, Some q) \<in> set st}"

definition category_tree_ok :: "cat_store \<Rightarrow> bool" where
  "category_tree_ok st \<longleftrightarrow>
     distinct (map fst st)
     \<and> length (filter (\<lambda>e. snd e = None) st) = 1
     \<and> (\<forall>(k, q) \<in> parent_rel st. q \<in> fst ` set st)
     \<and> acyclic (parent_rel st)"

text \<open>
  Every edge's parent is in \<open>S\<close> or is the key of an earlier edge: the order in
  which the build writes the tree, parents before their children.
\<close>

fun parents_before :: "string set \<Rightarrow> (string \<times> string option) list \<Rightarrow> bool" where
  "parents_before S [] = True"
| "parents_before S ((k, p) # es) = ((\<forall>q. p = Some q \<longrightarrow> q \<in> S) \<and> parents_before (insert k S) es)"

definition cache_coherent :: "category_class \<Rightarrow> bool" where
  "cache_coherent c \<longleftrightarrow>
     (\<forall>xs. CATEGORY_INFO c = Some xs \<longrightarrow> xs \<noteq> [] \<longrightarrow> xs = category_info (cat_store c))"

section \<open>Lemmas\<close>

lemmas cat_data_defs = ctree_def smartphones_def laptops_def

lemma build_wf:
  "wf_cat d \<Longrightarrow> buildCategory d p st = (put_all (tree_edges d p) st, None)"
  "\<forall>cs. ch = Some cs \<longrightarrow> (\<forall>c \<in> set cs. wf_cat c) \<longrightarrow>
     buildChildCategories ch p st = (put_all (concat (map (\<lambda>c. tree_edges c p) cs)) st, None)"
proof (induction d p st and ch p st rule: buildCategory_buildChildCategories.induct)
  case (1 nm ch parent_key st)
  then obtain n cs where "nm = Some n" "ch = Some cs" "n \<noteq> []" "\<forall>c \<in> set cs. wf_cat c"
    by (cases "(CatDict nm ch)" rule: wf_cat.cases) auto
  with "1.IH" show ?case by simp
next
  case (4 c cs parent_key st)
  show ?case
  proof (intro allI impI)
    fix cs' assume "Some (c # cs) = Some cs'" and wf: "\<forall>c \<in> set cs'. wf_cat c"
    then have cs': "cs' = c # cs" by simp
    with wf "4.IH"(1) have b: "buildCategory c parent_key st = (put_all (tree_edges c parent_key) st, None)"
      by simp
    with cs' wf "4.IH"(2) [OF b [symmetric]] show
      "buildChildCategories (Some (c # cs)) parent_key st =
         (put_all (concat (map (\<lambda>c. tree_edges c parent_key) cs')) st, None)"
      by (simp add: put_all_append)
  qed
qed auto

lemma parents_before_append:
  "parents_before S (xs @ ys) \<longleftrightarrow> parents_before S xs \<and> parents_before (S \<union> fst ` set xs) ys"
  by (induction S xs rule: parents_before.induct) (auto simp: insert_commute)

lemma parents_before_mono:
  "parents_before S es \<Longrightarrow> S \<subseteq> T \<Longrightarrow> parents_before T es"
  by (induction S es arbitrary: T rule: parents_before.induct) auto

lemma parents_before_tree_edges:
  "wf_cat d \<Longrightarrow> (\<forall>q. p = Some q \<longrightarrow> q \<in> S) \<Longrightarrow> parents_before S (tree_edges d p)"
proof (induction d p arbitrary: S rule: tree_edges.induct)
  case (1 n cs p)
  have "parents_before (insert n S) (concat (map (\<lambda>c. tree_edges c (Some n)) cs'))"
    if "set cs' \<subseteq> set cs" for cs'
    using that
  proof (induction cs')
    case (Cons c cs')
    with "1.prems"(1) have "parents_before (insert n S) (tree_edges c (Some n))"
      by (intro "1.IH") auto
    with Cons show ?case by (auto simp: parents_before_append intro: parents_before_mono)
  qed simp
  with "1.prems" show ?case by simp
qed auto

lemma parents_before_key:
  "parents_before S es \<Longrightarrow> (k, Some q) \<in> set es \<Longrightarrow> q \<in> S \<union> fst ` set es"
  by (induction S es rule: parents_before.induct) auto

lemma tree_edges_no_root:
  "p \<noteq> None \<Longrightarrow> filter (\<lambda>e. snd e = None) (tree_edges d p) = []"
proof (induction d p rule: tree_edges.induct)
  case (1 n cs p)
  then show ?case by (simp add: filter_concat)
qed auto

lemma parent_rel_snoc:
  "parent_rel (es @ [(k, p)]) = parent_rel es \<union> {(k, q) |q. p = Some q}"
  by (auto simp: parent_rel_def)

lemma acyclic_parents_before:
  "parents_before {} es \<Longrightarrow> distinct (map fst es) \<Longrightarrow> acyclic (parent_rel es)"
proof (induction es rule: rev_induct)
  case Nil
  then show ?case by (simp add: parent_rel_def acyclic_def)
next
  case (snoc e es)
  obtain k p where e: "e = (k, p)" by fastforce
  with snoc.prems have pb: "parents_before {} es" and q: "\<forall>q. p = Some q \<longrightarrow> q \<in> fst ` set es"
    and fresh: "k \<notin> fst ` set es" and d: "distinct (map fst es)"
    by (auto simp: parents_before_append)
  have ac: "acyclic (parent_rel es)" using snoc.IH pb d by simp
  have target: "(x, y) \<in> parent_rel es \<Longrightarrow> y \<in> fst ` set es" for x y
    using parents_before_key [OF pb] by (auto simp: parent_rel_def)
  show ?case
  proof (cases p)
    case None
    with e ac show ?thesis by (simp add: parent_rel_snoc)
  next
    case (Some q)
    have "(q, k) \<notin> (parent_rel es)\<^sup>*"
    proof
      assume "(q, k) \<in> (parent_rel es)\<^sup>*"
      then show False
      proof (cases rule: rtranclE)
        case base
        with q Some fresh show False by auto
      next
        case (step y)
        with target fresh show False by auto
      qed
    qed
    with e Some ac show ?thesis by (simp add: parent_rel_snoc)
  qed
qed

lemma put_all_fresh:
  "distinct (map fst es) \<Longrightarrow> fst ` set es \<inter> fst ` set st = {} \<Longrightarrow> put_all es st = st @ es"
proof (induction es arbitrary: st)
  case (Cons e es)
  obtain k v where e: "e = (k, v)" by fastforce
  with Cons.prems have "put k v st = st @ [(k, v)]" by (auto intro: put_fresh)
  with Cons e show ?case by auto
qed simp

lemma tree_ok_edges:
  assumes "wf_cat d" and "distinct (map fst (tree_edges d None))"
  shows "category_tree_ok (tree_edges d None)"
proof -
  have pb: "parents_before {} (tree_edges d None)"
    using assms(1) by (rule parents_before_tree_edges) simp
  obtain n cs where d: "d = CatDict (Some n) (Some cs)"
    using assms(1) by (cases d rule: wf_cat.cases) auto
  have roots: "length (filter (\<lambda>e. snd e = None) (tree_edges d None)) = 1"
    using tree_edges_no_root [of "Some n"] by (simp add: d filter_concat)
  have "\<forall>(k, q) \<in> parent_rel (tree_edges d None). q \<in> fst ` set (tree_edges d None)"
    using parents_before_key [OF pb] by (auto simp: parent_rel_def)
  with assms(2) roots acyclic_parents_before [OF pb assms(2)] show ?thesis
    by (simp add: category_tree_ok_def)
qed

lemma ctree_edges: "tree_edges ctree None = [(''root'', None), (''smartphones'', Some ''root''), (''Laptops'', Some ''root'')]"
  by (simp add: cat_data_defs)

lemma wf_ctree: "wf_cat ctree"
  by (simp add: cat_data_defs)

lemma buildAllCategories_eq:
  "buildAllCategories st = ((if st = [] then tree_edges ctree None else st), None)"
  using build_wf(1) [OF wf_ctree, of None "[]"] by (simp add: buildAllCategories_def ctree_edges put_def)

lemma category_info_ctree:
  "category_info (tree_edges ctree None) = [(''Laptops'', ''Laptops''), (''smartphones'', ''smartphones'')]"
  by (simp add: ctree_edges category_info_def ROOT_def)

lemma buildAllCategories_nonempty: "fst (buildAllCategories st) \<noteq> []"
  by (simp add: buildAllCategories_eq ctree_edges)

lemma getCategoryInfo_eq:
  "getCategoryInfo c =
     (if CATEGORY_INFO c = None \<or> CATEGORY_INFO c = Some []
      then (let st = fst (buildAllCategories (cat_store c))
            in (c\<lparr>cat_store := st, CATEGORY_INFO := Some (category_info st)\<rparr>, Inr (category_info st)))
      else (c, Inr (case CATEGORY_INFO c of Some xs \<Rightarrow> xs | None \<Rightarrow> [])))"
  by (simp add: getCategoryInfo_def buildAllCategories_eq Let_def)

lemma category_info_names:
  "map fst (category_info st) = sort (filter (\<lambda>k. k \<noteq> ROOT) (map category_name st))"
  by (simp add: category_info_def category_name_def [abs_def] comp_def filter_sort)

lemma category_info_same_keys:
  assumes "distinct (map fst st)" and "distinct (map fst st')" and "fst ` set st = fst ` set st'"
  shows "category_info st = category_info st'"
proof -
  have "sort (map fst st) = sort (map fst st')"
    using assms by (simp add: sort_distinct_set)
  then show ?thesis by (simp add: category_info_def)
qed

section \<open>Properties of the category store\<close>

text \<open>
  C11. Refinement: on a well-formed datum the recursive build
  (\<open>buildCategory\<close> with \<open>buildChildCategories\<close>) raises nothing and performs exactly
  the writes of the tree's edges, each node with its parent's key, in depth-first
  order, onto whatever the store held.
\<close>

theorem buildCategory_refines_edges:
  assumes "wf_cat d"
  shows "buildCategory d p st = (put_all (tree_edges d p) st, None)"
  using assms by (rule build_wf(1))

theorem buildCategory_refines_edges_witness:
  "wf_cat ctree \<and>
   buildCategory ctree None [(''x'', None)] =
     (put_all [(''root'', None), (''smartphones'', Some ''root''), (''Laptops'', Some ''root'')] [(''x'', None)], None)"
  using buildCategory_refines_edges [OF wf_ctree, of None "[(''x'', None)]"] wf_ctree
  by (simp add: ctree_edges)

text \<open>
  C12. Invariant of spec section 3: building a well-formed tree with distinct names
  into an empty store gives a store with unique keys, exactly one root, every parent
  stored and no cycle in the parent relation.
\<close>

theorem build_tree_invariant:
  assumes "wf_cat d" and "distinct (map fst (tree_edges d None))"
  shows "buildCategory d None [] = (tree_edges d None, None) \<and> category_tree_ok (tree_edges d None)"
  using build_wf(1) [OF assms(1), of None "[]"] put_all_fresh [OF assms(2), of "[]"]
    tree_ok_edges [OF assms] by simp

theorem build_tree_invariant_witness:
  "wf_cat ctree \<and> distinct (map fst (tree_edges ctree None)) \<and>
   buildCategory ctree None [] = (tree_edges ctree None, None) \<and> category_tree_ok (tree_edges ctree None)"
proof -
  have d: "distinct (map fst (tree_edges ctree None))" by (simp add: ctree_edges)
  show ?thesis using build_tree_invariant [OF wf_ctree d] wf_ctree d by simp
qed


text \<open>
  C14. Divergence from spec sections 4.3 and 7: a category datum with no name is not
  skipped with a warning; the warning's argument is an unbound name, so the build
  raises \<open>NameError\<close> and none of the later siblings is written.
\<close>

theorem nameless_category_aborts:
  assumes "nm \<noteq> None \<or> ch \<noteq> None" and "\<not> truthy nm"
  shows "buildChildCategories (Some (CatDict nm ch # cs)) p st = (st, Some no_name_error)"
  using assms by (cases nm) auto

theorem nameless_category_aborts_witness:
  "Some [] \<noteq> (None :: string option) \<and> \<not> truthy (Some []) \<and>
   buildChildCategories (Some [CatDict (Some []) (Some []), laptops]) (Some ''root'') [(''root'', None)]
     = ([(''root'', None)], Some no_name_error)"
  using nameless_category_aborts [of "Some []" "Some []" "[laptops]" "Some ''root''" "[(''root'', None)]"]
  by simp

text \<open>
  C15. The class-level cache: \<open>getCategoryInfo\<close> never raises; from a state whose
  cache is empty or agrees with the store it returns the menu entries of the store it
  leaves, that store holds the seeded categories, and the cache it leaves again agrees
  with the store.
\<close>

theorem getCategoryInfo_coherent:
  assumes "cache_coherent c"
  shows "\<exists>c' info. getCategoryInfo c = (c', Inr info) \<and> info = category_info (cat_store c')
           \<and> cat_store c' \<noteq> [] \<and> cache_coherent c'"
proof (cases "CATEGORY_INFO c = None \<or> CATEGORY_INFO c = Some []")
  case True
  then show ?thesis
    using buildAllCategories_nonempty [of "cat_store c"]
    by (auto simp: getCategoryInfo_eq Let_def cache_coherent_def)
next
  case False
  then obtain xs where xs: "CATEGORY_INFO c = Some xs" "xs \<noteq> []" by auto
  with assms have "xs = category_info (cat_store c)" by (simp add: cache_coherent_def)
  moreover have "cat_store c \<noteq> []"
    using xs \<open>xs = category_info (cat_store c)\<close> by (auto simp: category_info_def)
  ultimately show ?thesis using xs assms by (simp add: getCategoryInfo_eq)
qed

theorem getCategoryInfo_coherent_witness:
  "cache_coherent \<lparr>cat_store = [], CATEGORY_INFO = None\<rparr> \<and>
   getCategoryInfo \<lparr>cat_store = [], CATEGORY_INFO = None\<rparr> =
     (\<lparr>cat_store = tree_edges ctree None, CATEGORY_INFO = Some [(''Laptops'', ''Laptops''), (''smartphones'', ''smartphones'')]\<rparr>,
      Inr [(''Laptops'', ''Laptops''), (''smartphones'', ''smartphones'')]) \<and>
   [(''Laptops'', ''Laptops''), (''smartphones'', ''smartphones'')] = category_info (tree_edges ctree None) \<and>
   tree_edges ctree None \<noteq> [] \<and>
   cache_coherent \<lparr>cat_store = tree_edges ctree None,
                   CATEGORY_INFO = Some [(''Laptops'', ''Laptops''), (''smartphones'', ''smartphones'')]\<rparr>"
proof -
  have c: "cache_coherent \<lparr>cat_store = [], CATEGORY_INFO = None\<rparr>" by (simp add: cache_coherent_def)
  have g: "getCategoryInfo \<lparr>cat_store = [], CATEGORY_INFO = None\<rparr> =
     (\<lparr>cat_store = tree_edges ctree None, CATEGORY_INFO = Some [(''Laptops'', ''Laptops''), (''smartphones'', ''smartphones'')]\<rparr>,
      Inr [(''Laptops'', ''Laptops''), (''smartphones'', ''smartphones'')])"
    by (simp add: getCategoryInfo_eq buildAllCategories_eq category_info_ctree)
  show ?thesis using getCategoryInfo_coherent [OF c] c g category_info_ctree by simp
qed

text \<open>
  C16. Memoisation is idempotent: calling \<open>getCategoryInfo\<close> again on the state it
  left returns the same entries and leaves the state unchanged, also when the entries
  are empty and the cache is therefore recomputed.
\<close>

theorem getCategoryInfo_idempotent:
  assumes "getCategoryInfo c = (c', r)"
  shows "getCategoryInfo c' = (c', r)"
proof (cases "CATEGORY_INFO c = None \<or> CATEGORY_INFO c = Some []")
  case True
  let ?st = "fst (buildAllCategories (cat_store c))"
  from True assms have c': "c' = c\<lparr>cat_store := ?st, CATEGORY_INFO := Some (category_info ?st)\<rparr>"
    and r: "r = Inr (category_info ?st)"
    by (auto simp: getCategoryInfo_eq Let_def)
  have "fst (buildAllCategories ?st) = ?st"
    using buildAllCategories_nonempty by (simp add: buildAllCategories_eq)
  with c' r show ?thesis by (simp add: getCategoryInfo_eq Let_def)
next
  case False
  with assms show ?thesis by (auto simp: getCategoryInfo_eq)
qed

theorem getCategoryInfo_idempotent_witness:
  "getCategoryInfo \<lparr>cat_store = [(''root'', None)], CATEGORY_INFO = None\<rparr> =
     (\<lparr>cat_store = [(''root'', None)], CATEGORY_INFO = Some []\<rparr>, Inr []) \<and>
   getCategoryInfo \<lparr>cat_store = [(''root'', None)], CATEGORY_INFO = Some []\<rparr> =
     (\<lparr>cat_store = [(''root'', None)], CATEGORY_INFO = Some []\<rparr>, Inr [])"
proof -
  have g: "getCategoryInfo \<lparr>cat_store = [(''root'', None)], CATEGORY_INFO = None\<rparr> =
     (\<lparr>cat_store = [(''root'', None)], CATEGORY_INFO = Some []\<rparr>, Inr [])"
    by (simp add: getCategoryInfo_eq buildAllCategories_eq category_info_def ROOT_def)
  show ?thesis using getCategoryInfo_idempotent [OF g] g by simp
qed

end
