(* ===== verification/CategoryRace.thy ===== *)
theory CategoryRace
  imports Categories
begin

text \<open>
  Spec section 5 notes that the existence check of \<open>buildAllCategories\<close> and the
  writes after it are not atomic, and asks whether concurrent first-time seeding can
  create duplicate roots. Here any number of requests (numbered by \<open>nat\<close>) run the
  seeding against one shared datastore: a request first checks whether the kind is
  empty, and if so performs the build's writes, one datastore \<open>put\<close> per step
  (by C11 these are the edges of \<open>ctree\<close> in depth-first order). A schedule is the
  sequence of requests that take a step; the reachable states are those of all
  schedules. Because every write is keyed by the category name and all requests write
  the same values, no interleaving produces anything but the seeded tree.
\<close>

datatype seed_pc = Check | Putting "(string \<times> string option) list" | Done

record race_state =
  race_store :: cat_store
  pcs :: "nat \<Rightarrow> seed_pc"

definition seed_writes :: "(string \<times> string option) list" where
  "seed_writes = tree_edges ctree None"

definition race_init :: race_state where
  "race_init = \<lparr>race_store = [], pcs = (\<lambda>_. Check)\<rparr>"

text \<open>One step of request \<open>i\<close>; a finished request does nothing.\<close>

fun thread_step :: "race_state \<Rightarrow> nat \<Rightarrow> race_state" where
  "thread_step s i =
     (case pcs s i of
        Check \<Rightarrow> if race_store s = [] then s\<lparr>pcs := (pcs s)(i := Putting seed_writes)\<rparr>
                 else s\<lparr>pcs := (pcs s)(i := Done)\<rparr>
      | Putting ((k, v) # ops) \<Rightarrow>
          s\<lparr>race_store := put k v (race_store s), pcs := (pcs s)(i := Putting ops)\<rparr>
      | Putting [] \<Rightarrow> s\<lparr>pcs := (pcs s)(i := Done)\<rparr>
      | Done \<Rightarrow> s)"

declare thread_step.simps [simp del]

definition run_schedule :: "nat list \<Rightarrow> race_state" where
  "run_schedule sched = fold (\<lambda>i s. thread_step s i) sched race_init"

inductive race_reachable :: "race_state \<Rightarrow> bool" where
  init: "race_reachable race_init"
| step: "race_reachable s \<Longrightarrow> race_reachable (thread_step s i)"

text \<open>Steps a request still needs: a measure that each of its own steps decreases.\<close>

fun pc_rank :: "seed_pc \<Rightarrow> nat" where
  "pc_rank Check = length seed_writes + 2"
| "pc_rank (Putting ops) = length ops + 1"
| "pc_rank Done = 0"

text \<open>The same steps from any state: a run continued by a schedule.\<close>

definition run_from :: "race_state \<Rightarrow> nat list \<Rightarrow> race_state" where
  "run_from s sched = fold (\<lambda>i s. thread_step s i) sched s"

text \<open>A schedule giving each listed request as many steps as it still needs.\<close>

definition completion_schedule :: "race_state \<Rightarrow> nat list \<Rightarrow> nat list" where
  "completion_schedule s reqs = concat (map (\<lambda>j. replicate (pc_rank (pcs s j)) j) reqs)"

definition covered :: "race_state \<Rightarrow> bool" where
  "covered s \<longleftrightarrow> set seed_writes \<subseteq> set (race_store s) \<or> (\<exists>j ops. pcs s j = Putting ops)"

definition race_inv :: "race_state \<Rightarrow> bool" where
  "race_inv s \<longleftrightarrow>
     distinct (map fst (race_store s))
     \<and> set (race_store s) \<subseteq> set seed_writes
     \<and> (\<forall>i ops. pcs s i = Putting ops \<longrightarrow>
           set ops \<subseteq> set seed_writes \<and> set seed_writes \<subseteq> set (race_store s) \<union> set ops)
     \<and> (\<forall>i. pcs s i = Done \<longrightarrow> covered s)
     \<and> (race_store s \<noteq> [] \<longrightarrow> covered s)"

section \<open>Lemmas\<close>

lemma seed_writes_eq:
  "seed_writes = [(''root'', None), (''smartphones'', Some ''root''), (''Laptops'', Some ''root'')]"
  by (simp add: seed_writes_def ctree_edges)

lemma seed_writes_consistent: "consistent (set seed_writes)"
  by (auto simp: seed_writes_eq consistent_def)

lemma thread_step_other: "j \<noteq> i \<Longrightarrow> pcs (thread_step s j) i = pcs s i"
  by (auto simp: thread_step.simps split: seed_pc.splits list.splits)

lemma race_reachable_fold: "race_reachable s \<Longrightarrow> race_reachable (run_from s sched)"
  unfolding run_from_def by (induction sched arbitrary: s) (auto intro: race_reachable.step)

lemma run_from_idle: "i \<notin> set sched \<Longrightarrow> pcs (run_from s sched) i = pcs s i"
  unfolding run_from_def by (induction sched arbitrary: s) (auto simp: thread_step_other)

lemma race_reachable_run: "race_reachable (run_schedule sched)"
  using race_reachable_fold [OF race_reachable.init] by (simp add: run_schedule_def run_from_def)

lemma race_inv_init: "race_inv race_init"
  by (simp add: race_inv_def race_init_def)

lemma put_consistent_set:
  assumes "distinct (map fst st)" and "set st \<subseteq> set seed_writes" and "(k, v) \<in> set seed_writes"
  shows "set (put k v st) = insert (k, v) (set st)"
proof -
  have "(k, v) \<in> set st \<or> k \<notin> fst ` set st"
  proof (cases "k \<in> fst ` set st")
    case True
    then obtain v' where kv': "(k, v') \<in> set st" by auto
    with assms(2) have "(k, v') \<in> set seed_writes" by auto
    with assms(3) seed_writes_consistent have "v' = v" unfolding consistent_def by blast
    with kv' show ?thesis by simp
  qed simp
  with assms(1) show ?thesis by (rule set_put_consistent)
qed

lemma covered_upd:
  assumes "covered s" and "\<forall>ops. pcs s i \<noteq> Putting ops"
  shows "covered (s\<lparr>pcs := (pcs s)(i := x)\<rparr>)"
proof -
  from assms(1) consider "set seed_writes \<subseteq> set (race_store s)" | j ops where "pcs s j = Putting ops"
    by (auto simp: covered_def)
  then show ?thesis
  proof cases
    case 1
    then show ?thesis by (simp add: covered_def)
  next
    case (2 j ops)
    with assms(2) have "j \<noteq> i" by auto
    with 2 show ?thesis unfolding covered_def by (intro disjI2 exI [of _ j] exI [of _ ops]) simp
  qed
qed

lemma covered_putting: "pcs s i = Putting ops \<Longrightarrow> covered s"
  by (auto simp: covered_def)

lemma race_inv_intro:
  assumes "distinct (map fst (race_store s))" and "set (race_store s) \<subseteq> set seed_writes"
    and "\<And>j ops. pcs s j = Putting ops \<Longrightarrow>
           set ops \<subseteq> set seed_writes \<and> set seed_writes \<subseteq> set (race_store s) \<union> set ops"
    and "covered s"
  shows "race_inv s"
  using assms by (simp add: race_inv_def)

lemma race_inv_pending:
  "race_inv s \<Longrightarrow> pcs s j = Putting ops \<Longrightarrow>
   set ops \<subseteq> set seed_writes \<and> set seed_writes \<subseteq> set (race_store s) \<union> set ops"
  by (simp add: race_inv_def)

text \<open>A step that changes only the program counter of request \<open>i\<close> keeps the invariant.\<close>

lemma race_inv_set_pc:
  assumes inv: "race_inv s" and cov: "covered (s\<lparr>pcs := (pcs s)(i := p)\<rparr>)"
    and new: "\<And>ops. p = Putting ops \<Longrightarrow>
                set ops \<subseteq> set seed_writes \<and> set seed_writes \<subseteq> set (race_store s) \<union> set ops"
  shows "race_inv (s\<lparr>pcs := (pcs s)(i := p)\<rparr>)" (is "race_inv ?s")
proof (rule race_inv_intro)
  show "distinct (map fst (race_store ?s))" "set (race_store ?s) \<subseteq> set seed_writes"
    using inv by (simp_all add: race_inv_def)
  show "covered ?s" by (rule cov)
  fix j ops assume "pcs ?s j = Putting ops"
  then show "set ops \<subseteq> set seed_writes \<and> set seed_writes \<subseteq> set (race_store ?s) \<union> set ops"
    using race_inv_pending [OF inv, of j ops] new [of ops] by (cases "j = i") auto
qed

lemma race_inv_check_empty:
  assumes inv: "race_inv s"
  shows "race_inv (s\<lparr>pcs := (pcs s)(i := Putting seed_writes)\<rparr>)"
  by (rule race_inv_set_pc [OF inv]) (auto intro: covered_putting [of _ i seed_writes])

lemma race_inv_check_nonempty:
  assumes inv: "race_inv s" and pc: "pcs s i = Check" and ne: "race_store s \<noteq> []"
  shows "race_inv (s\<lparr>pcs := (pcs s)(i := Done)\<rparr>)"
proof (rule race_inv_set_pc [OF inv])
  have "covered s" using inv ne by (simp add: race_inv_def)
  then show "covered (s\<lparr>pcs := (pcs s)(i := Done)\<rparr>)" using pc by (intro covered_upd) simp_all
qed simp

lemma race_inv_finish:
  assumes inv: "race_inv s" and pc: "pcs s i = Putting []"
  shows "race_inv (s\<lparr>pcs := (pcs s)(i := Done)\<rparr>)"
proof (rule race_inv_set_pc [OF inv])
  have "set seed_writes \<subseteq> set (race_store s)" using race_inv_pending [OF inv pc] by simp
  then show "covered (s\<lparr>pcs := (pcs s)(i := Done)\<rparr>)" by (simp add: covered_def)
qed simp

lemma race_inv_put:
  assumes inv: "race_inv s" and pc: "pcs s i = Putting ((k, v) # ops)"
  shows "race_inv (s\<lparr>race_store := put k v (race_store s), pcs := (pcs s)(i := Putting ops)\<rparr>)"
    (is "race_inv ?s")
proof (rule race_inv_intro)
  from race_inv_pending [OF inv pc] have kv: "(k, v) \<in> set seed_writes"
    and opsE: "set ops \<subseteq> set seed_writes"
    and covE: "set seed_writes \<subseteq> set (race_store s) \<union> insert (k, v) (set ops)"
    by auto
  from inv have d: "distinct (map fst (race_store s))" and sub: "set (race_store s) \<subseteq> set seed_writes"
    by (auto simp: race_inv_def)
  have set': "set (race_store ?s) = insert (k, v) (set (race_store s))"
    using put_consistent_set [OF d sub kv] by simp
  show "covered ?s" by (rule covered_putting [of _ i ops]) simp
  show "distinct (map fst (race_store ?s))" using d by (simp add: distinct_put)
  show "set (race_store ?s) \<subseteq> set seed_writes" using set' sub kv by simp
  fix j ops' assume that: "pcs ?s j = Putting ops'"
  show "set ops' \<subseteq> set seed_writes \<and> set seed_writes \<subseteq> set (race_store ?s) \<union> set ops'"
  proof (cases "j = i")
    case True
    with that have "ops' = ops" by simp
    with opsE covE set' show ?thesis by auto
  next
    case False
    with that have "pcs s j = Putting ops'" by simp
    from race_inv_pending [OF inv this] set' show ?thesis by auto
  qed
qed

lemma race_inv_step:
  assumes inv: "race_inv s"
  shows "race_inv (thread_step s i)"
proof (cases "pcs s i")
  case Check
  then show ?thesis
    using race_inv_check_empty [OF inv] race_inv_check_nonempty [OF inv Check]
    by (simp add: thread_step.simps)
next
  case (Putting ops)
  then show ?thesis
  proof (cases ops)
    case Nil
    with Putting show ?thesis using race_inv_finish [OF inv] by (simp add: thread_step.simps)
  next
    case (Cons e ops')
    obtain k v where e: "e = (k, v)" by fastforce
    with Putting Cons show ?thesis using race_inv_put [OF inv] by (simp add: thread_step.simps)
  qed
next
  case Done
  with inv show ?thesis by (simp add: thread_step.simps)
qed

lemma race_reachable_inv: "race_reachable s \<Longrightarrow> race_inv s"
proof (induction rule: race_reachable.induct)
  case init
  show ?case by (rule race_inv_init)
next
  case (step s i)
  from step.IH show ?case by (rule race_inv_step)
qed

lemma tree_ok_perm:
  assumes "category_tree_ok xs" and "distinct (map fst ys)" and "set ys = set xs"
  shows "category_tree_ok ys"
proof -
  have "distinct xs" using assms(1) by (simp add: category_tree_ok_def distinct_map)
  moreover have "distinct ys" using assms(2) by (simp add: distinct_map)
  ultimately have "length (filter (\<lambda>e. snd e = None) ys) = length (filter (\<lambda>e. snd e = None) xs)"
    using assms(3) distinct_card [of "filter (\<lambda>e. snd e = None) xs"]
      distinct_card [of "filter (\<lambda>e. snd e = None) ys"] by simp
  moreover have "parent_rel ys = parent_rel xs" using assms(3) by (simp add: parent_rel_def)
  ultimately show ?thesis using assms by (simp add: category_tree_ok_def)
qed

lemma race_inv_store:
  "race_inv s \<Longrightarrow> distinct (map fst (race_store s)) \<and> set (race_store s) \<subseteq> set seed_writes"
  unfolding race_inv_def by (elim conjE) (intro conjI)

lemma race_inv_done:
  assumes "race_inv s" and "pcs s i = Done"
  shows "covered s"
proof -
  from assms(1) have "\<forall>i. pcs s i = Done \<longrightarrow> covered s"
    unfolding race_inv_def by (elim conjE) assumption
  with assms(2) show ?thesis by blast
qed

lemma seed_tree_ok: "category_tree_ok seed_writes"
  unfolding seed_writes_def by (rule tree_ok_edges [OF wf_ctree]) (simp add: ctree_edges)

lemma race_final_store:
  assumes "race_reachable s" and "pcs s i = Done" and "\<forall>j ops. pcs s j \<noteq> Putting ops"
  shows "set (race_store s) = set seed_writes \<and> map_of (race_store s) = map_of seed_writes
         \<and> category_tree_ok (race_store s)"
proof -
  have inv: "race_inv s" using assms(1) by (rule race_reachable_inv)
  have "covered s" using inv assms(2) by (rule race_inv_done)
  with assms(3) have sup: "set seed_writes \<subseteq> set (race_store s)" by (simp add: covered_def)
  have st: "distinct (map fst (race_store s))" "set (race_store s) \<subseteq> set seed_writes"
    using race_inv_store [OF inv] by simp_all
  have eq: "set (race_store s) = set seed_writes" by (rule equalityI [OF st(2) sup])
  have "map_of (race_store s) = map_of seed_writes"
    by (rule map_of_eq_if_same_set) (simp_all add: eq seed_writes_consistent)
  moreover have "category_tree_ok (race_store s)"
    using seed_tree_ok st(1) eq by (rule tree_ok_perm)
  ultimately show ?thesis using eq by simp
qed

lemma thread_step_rank:
  "pcs s i \<noteq> Done \<Longrightarrow> pc_rank (pcs (thread_step s i) i) < pc_rank (pcs s i)"
  by (auto simp: thread_step.simps split: seed_pc.splits list.splits)

lemma thread_step_done: "pcs s i = Done \<Longrightarrow> pcs (thread_step s i) i = Done"
  by (simp add: thread_step.simps)

lemma fold_done:
  "pc_rank (pcs s i) \<le> count_list sched i \<Longrightarrow> pcs (fold (\<lambda>j s. thread_step s j) sched s) i = Done"
proof (induction sched arbitrary: s)
  case Nil
  then show ?case by (cases "pcs s i") auto
next
  case (Cons j sched)
  show ?case
  proof (cases "j = i")
    case True
    have "pc_rank (pcs (thread_step s i) i) \<le> count_list sched i"
    proof (cases "pcs s i = Done")
      case True
      then show ?thesis by (simp add: thread_step_done)
    next
      case False
      with thread_step_rank [of s i] Cons.prems \<open>j = i\<close> show ?thesis by simp
    qed
    with True Cons.IH show ?thesis by simp
  next
    case False
    with Cons.prems thread_step_other [of j i s] have "pc_rank (pcs (thread_step s j) i) \<le> count_list sched i"
      by simp
    with Cons.IH show ?thesis by simp
  qed
qed

lemma run_schedule_done: "5 \<le> count_list sched i \<Longrightarrow> pcs (run_schedule sched) i = Done"
  using fold_done [of race_init i sched] by (simp add: run_schedule_def race_init_def seed_writes_eq)

lemma run_schedule_idle: "i \<notin> set sched \<Longrightarrow> pcs (run_schedule sched) i = Check"
  using run_from_idle [of i sched race_init] by (simp add: run_schedule_def run_from_def race_init_def)

lemma started_finite: "race_reachable s \<Longrightarrow> finite {j. pcs s j \<noteq> Check}"
proof (induction rule: race_reachable.induct)
  case init
  then show ?case by (simp add: race_init_def)
next
  case (step s i)
  have "{j. pcs (thread_step s i) j \<noteq> Check} \<subseteq> insert i {j. pcs s j \<noteq> Check}"
  proof
    fix j assume "j \<in> {j. pcs (thread_step s i) j \<noteq> Check}"
    then show "j \<in> insert i {j. pcs s j \<noteq> Check}"
      using thread_step_other [of i j s] by (cases "j = i") auto
  qed
  moreover have "finite (insert i {j. pcs s j \<noteq> Check})" using step.IH by simp
  ultimately show ?case by (rule finite_subset)
qed

lemma count_completion:
  "j \<in> set reqs \<Longrightarrow> pc_rank (pcs s j) \<le> count_list (completion_schedule s reqs) j"
  by (induction reqs) (auto simp: completion_schedule_def)

lemma set_completion: "set (completion_schedule s reqs) \<subseteq> set reqs"
  by (auto simp: completion_schedule_def)

section \<open>Properties of concurrent seeding\<close>

text \<open>
  C17. Spec section 5's open question, settled for the code as written: under every
  interleaving of concurrent first-time seedings in which each request that runs
  takes its five steps, the store ends holding exactly the seeded categories (the same
  entries as one sequential build) and forms one tree: no duplicate root, no cycle.
\<close>

theorem concurrent_seeding_safe:
  assumes "sched \<noteq> []" and "\<forall>j \<in> set sched. 5 \<le> count_list sched j"
  shows "map_of (race_store (run_schedule sched)) = map_of seed_writes
         \<and> category_tree_ok (race_store (run_schedule sched))"
proof -
  obtain i where i: "i \<in> set sched" using assms(1) by (cases sched) auto
  have fin: "pcs (run_schedule sched) i = Done" using assms(2) i by (simp add: run_schedule_done)
  have "\<forall>j ops. pcs (run_schedule sched) j \<noteq> Putting ops"
  proof (intro allI)
    fix j ops
    show "pcs (run_schedule sched) j \<noteq> Putting ops"
      using assms(2) run_schedule_done [of sched j] run_schedule_idle [of j sched]
      by (cases "j \<in> set sched") auto
  qed
  with race_final_store [OF race_reachable_run fin] show ?thesis by simp
qed

theorem concurrent_seeding_safe_witness:
  "[0, 1, 0, 1, 1, 0, 0, 1, 0, 1] \<noteq> [] \<and>
   set [0, 1, 0, 1, 1, 0, 0, 1, 0, 1::nat] = {0, 1} \<and>
   count_list [0, 1, 0, 1, 1, 0, 0, 1, 0, 1::nat] 0 = 5 \<and> count_list [0, 1, 0, 1, 1, 0, 0, 1, 0, 1::nat] 1 = 5 \<and>
   map_of (race_store (run_schedule [0, 1, 0, 1, 1, 0, 0, 1, 0, 1])) = map_of seed_writes \<and>
   category_tree_ok (race_store (run_schedule [0, 1, 0, 1, 1, 0, 0, 1, 0, 1]))"
proof -
  have a: "[0, 1, 0, 1, 1, 0, 0, 1, 0, 1::nat] \<noteq> []" by simp
  have b: "\<forall>j \<in> set [0, 1, 0, 1, 1, 0, 0, 1, 0, 1::nat]. 5 \<le> count_list [0, 1, 0, 1, 1, 0, 0, 1, 0, 1::nat] j"
    by simp
  show ?thesis using concurrent_seeding_safe [OF a b] a by auto
qed

text \<open>
  C31. Liveness of seeding: from any reachable state, however the requests have
  interleaved so far (some checked, some half-way through their writes), there is a
  continuation of the schedule after which any chosen request and every request that
  had started have returned, and the store holds exactly the seeded tree.
\<close>

theorem seeding_can_complete:
  assumes "race_reachable s"
  shows "\<exists>sched. pcs (run_from s sched) i = Done
           \<and> (\<forall>j. pcs s j \<noteq> Check \<longrightarrow> pcs (run_from s sched) j = Done)
           \<and> map_of (race_store (run_from s sched)) = map_of seed_writes
           \<and> category_tree_ok (race_store (run_from s sched))"
proof -
  obtain reqs where reqs: "set reqs = insert i {j. pcs s j \<noteq> Check}"
    using finite_list started_finite [OF assms] by blast
  let ?s' = "run_from s (completion_schedule s reqs)"
  have fin: "pcs ?s' j = Done" if "j \<in> set reqs" for j
    using fold_done [of s j] count_completion [OF that, of s] by (simp add: run_from_def)
  have none: "\<forall>j ops. pcs ?s' j \<noteq> Putting ops"
  proof (intro allI)
    fix j ops
    show "pcs ?s' j \<noteq> Putting ops"
    proof (cases "j \<in> set reqs")
      case True
      with fin show ?thesis by simp
    next
      case False
      with set_completion [of s reqs] have "pcs ?s' j = pcs s j" by (auto intro: run_from_idle)
      with False reqs show ?thesis by auto
    qed
  qed
  have "pcs ?s' i = Done" using fin reqs by simp
  from race_final_store [OF race_reachable_fold [OF assms] this none] this fin reqs show ?thesis
    by blast
qed

theorem seeding_can_complete_witness:
  "race_reachable (run_schedule [0]) \<and> pcs (run_schedule [0]) 0 = Putting seed_writes \<and>
   (\<exists>sched. pcs (run_from (run_schedule [0]) sched) 1 = Done
      \<and> map_of (race_store (run_from (run_schedule [0]) sched)) = map_of seed_writes
      \<and> category_tree_ok (race_store (run_from (run_schedule [0]) sched)))"
proof -
  have p: "pcs (run_schedule [0]) 0 = Putting seed_writes"
    by (simp add: run_schedule_def race_init_def thread_step.simps)
  from seeding_can_complete [OF race_reachable_run, of "[0]" 1] race_reachable_run [of "[0]"] p
  show ?thesis by blast
qed

end
