(* ===== verification/CategoryCache.thy ===== *)
theory CategoryCache
  imports CategoryRace
begin

text \<open>
  \<open>Category.getCategoryInfo\<close> (\<open>src/models.py\<close>) under concurrency. The cache
  \<open>_CATEGORY_INFO\<close> is a class attribute, so each application instance holds its own,
  while the category kind is shared by all instances. A request served by instance
  \<open>inst r\<close> reads its instance's cache; when that is falsy it runs
  \<open>buildAllCategories\<close> (the steps of \<open>thread_step\<close> for request \<open>r\<close>), then fetches
  the stored categories in one read and assigns the menu to the cache, and answers it.
  Requests interleave step by step with the seeding writes of other requests.
  The assignment and the \<open>return cls._CATEGORY_INFO\<close> after it are one step, so a
  request answers the menu it fetched itself (in the code another thread of the same
  instance could assign in between).
\<close>

datatype info_pc = Start | Seeding | Answered "(string \<times> string) list"

record cache_state =
  shared :: race_state
  class_cache :: "nat \<Rightarrow> (string \<times> string) list option"
  ipc :: "nat \<Rightarrow> info_pc"

definition cache_init :: cache_state where
  "cache_init = \<lparr>shared = race_init, class_cache = (\<lambda>_. None), ipc = (\<lambda>_. Start)\<rparr>"

text \<open>
  One step of request \<open>r\<close>: the test \<open>if not cls._CATEGORY_INFO\<close>; a step of the
  build; or, once the build has returned, \<open>cls.query().fetch()\<close> and the assignment.
\<close>

definition info_step :: "(nat \<Rightarrow> nat) \<Rightarrow> cache_state \<Rightarrow> nat \<Rightarrow> cache_state" where
  "info_step inst s r =
     (case ipc s r of
        Start \<Rightarrow>
          (case class_cache s (inst r) of
             Some xs \<Rightarrow> if xs \<noteq> [] then s\<lparr>ipc := (ipc s)(r := Answered xs)\<rparr>
                       else s\<lparr>ipc := (ipc s)(r := Seeding)\<rparr>
           | None \<Rightarrow> s\<lparr>ipc := (ipc s)(r := Seeding)\<rparr>)
      | Seeding \<Rightarrow>
          if pcs (shared s) r = Done
          then (let info = category_info (race_store (shared s))
                in s\<lparr>class_cache := (class_cache s)(inst r := Some info), ipc := (ipc s)(r := Answered info)\<rparr>)
          else s\<lparr>shared := thread_step (shared s) r\<rparr>
      | Answered xs \<Rightarrow> s)"

definition run_cache :: "(nat \<Rightarrow> nat) \<Rightarrow> cache_state \<Rightarrow> nat list \<Rightarrow> cache_state" where
  "run_cache inst s sched = fold (\<lambda>r s. info_step inst s r) sched s"

inductive cache_reachable :: "(nat \<Rightarrow> nat) \<Rightarrow> cache_state \<Rightarrow> bool" for inst where
  init: "cache_reachable inst cache_init"
| step: "cache_reachable inst s \<Longrightarrow> cache_reachable inst (info_step inst s r)"

text \<open>The evaluation facts of concrete runs: the steps, the seeding writes and the menu.\<close>

lemmas cache_run_defs = run_cache_def info_step_def cache_init_def race_init_def thread_step.simps
  seed_writes_eq put_def category_info_def ROOT_def Let_def

section \<open>Lemmas\<close>

lemma info_step_shared:
  "shared (info_step inst s r) = shared s \<or> shared (info_step inst s r) = thread_step (shared s) r"
  by (auto simp: info_step_def Let_def split: info_pc.splits option.splits)

lemma cache_reachable_shared: "cache_reachable inst s \<Longrightarrow> race_reachable (shared s)"
proof (induction rule: cache_reachable.induct)
  case init
  then show ?case by (simp add: cache_init_def race_reachable.init)
next
  case (step s r)
  then show ?case using info_step_shared [of inst s r] by (auto intro: race_reachable.step)
qed

lemma cache_reachable_run: "cache_reachable inst s \<Longrightarrow> cache_reachable inst (run_cache inst s sched)"
  unfolding run_cache_def by (induction sched arbitrary: s) (auto intro: cache_reachable.step)

lemma info_step_stable:
  assumes "class_cache s k = Some xs" and "xs \<noteq> []" and "\<forall>r. inst r = k \<longrightarrow> ipc s r \<noteq> Seeding"
  shows "class_cache (info_step inst s q) k = Some xs
         \<and> (\<forall>r. inst r = k \<longrightarrow> ipc (info_step inst s q) r \<noteq> Seeding)
         \<and> (\<forall>r. inst r = k \<longrightarrow> ipc s r \<in> {Start, Answered xs} \<longrightarrow> ipc (info_step inst s q) r \<in> {Start, Answered xs})"
proof (cases "inst q = k")
  case True
  with assms show ?thesis by (auto simp: info_step_def split: info_pc.splits)
next
  case False
  with assms show ?thesis by (auto simp: info_step_def Let_def split: info_pc.splits option.splits)
qed

lemma run_cache_stable:
  assumes "class_cache s k = Some xs" and "xs \<noteq> []" and "\<forall>r. inst r = k \<longrightarrow> ipc s r \<noteq> Seeding"
  shows "class_cache (run_cache inst s sched) k = Some xs
         \<and> (\<forall>r. inst r = k \<longrightarrow> ipc s r \<in> {Start, Answered xs} \<longrightarrow> ipc (run_cache inst s sched) r \<in> {Start, Answered xs})"
  using assms
proof (induction sched arbitrary: s)
  case Nil
  then show ?case by (simp add: run_cache_def)
next
  case (Cons q sched)
  from info_step_stable [OF Cons.prems] have
    c: "class_cache (info_step inst s q) k = Some xs"
    and n: "\<forall>r. inst r = k \<longrightarrow> ipc (info_step inst s q) r \<noteq> Seeding"
    and a: "\<forall>r. inst r = k \<longrightarrow> ipc s r \<in> {Start, Answered xs} \<longrightarrow> ipc (info_step inst s q) r \<in> {Start, Answered xs}"
    by simp_all
  have e: "run_cache inst s (q # sched) = run_cache inst (info_step inst s q) sched"
    by (simp add: run_cache_def)
  from Cons.IH [OF c Cons.prems(2) n] a show ?case unfolding e by blast
qed

section \<open>Properties of the cached menu\<close>

text \<open>
  C34. A menu fetched while no request is half-way through the seeding writes is the
  complete menu of the seeded tree: whatever the interleaving before, the assignment
  of \<open>getCategoryInfo\<close> then caches and answers every seeded category but the root.
\<close>

theorem fetched_menu_complete:
  assumes "cache_reachable inst s" and "ipc s r = Seeding" and "pcs (shared s) r = Done"
    and "\<forall>j ops. pcs (shared s) j \<noteq> Putting ops"
  shows "class_cache (info_step inst s r) (inst r) = Some (category_info seed_writes)
         \<and> ipc (info_step inst s r) r = Answered (category_info seed_writes)"
proof -
  from race_final_store [OF cache_reachable_shared [OF assms(1)] assms(3,4)]
  have eq: "set (race_store (shared s)) = set seed_writes"
    and ok: "category_tree_ok (race_store (shared s))" by simp_all
  from ok have "distinct (map fst (race_store (shared s)))" by (simp add: category_tree_ok_def)
  moreover have "distinct (map fst seed_writes)" by (simp add: seed_writes_eq)
  moreover from eq have "fst ` set (race_store (shared s)) = fst ` set seed_writes" by simp
  ultimately have "category_info (race_store (shared s)) = category_info seed_writes"
    by (rule category_info_same_keys)
  with assms(2,3) show ?thesis by (simp add: info_step_def Let_def)
qed

theorem fetched_menu_complete_witness:
  "cache_reachable (\<lambda>r. r mod 2) (run_cache (\<lambda>r. r mod 2) cache_init [0, 0, 0, 0, 0, 0]) \<and>
   ipc (run_cache (\<lambda>r. r mod 2) cache_init [0, 0, 0, 0, 0, 0]) 0 = Seeding \<and>
   pcs (shared (run_cache (\<lambda>r. r mod 2) cache_init [0, 0, 0, 0, 0, 0])) 0 = Done \<and>
   (\<forall>j ops. pcs (shared (run_cache (\<lambda>r. r mod 2) cache_init [0, 0, 0, 0, 0, 0])) j \<noteq> Putting ops) \<and>
   class_cache (info_step (\<lambda>r. r mod 2) (run_cache (\<lambda>r. r mod 2) cache_init [0, 0, 0, 0, 0, 0]) 0) 0 =
     Some [(''Laptops'', ''Laptops''), (''smartphones'', ''smartphones'')]"
proof -
  define s where "s = run_cache (\<lambda>r. r mod 2) cache_init [0, 0, 0, 0, 0, 0]"
  have r: "cache_reachable (\<lambda>r. r mod 2) s"
    unfolding s_def by (rule cache_reachable_run [OF cache_reachable.init])
  have i: "ipc s 0 = Seeding" and d: "pcs (shared s) 0 = Done"
    and n: "\<forall>j ops. pcs (shared s) j \<noteq> Putting ops"
    unfolding s_def by (simp_all add: cache_run_defs)
  have m: "category_info seed_writes = [(''Laptops'', ''Laptops''), (''smartphones'', ''smartphones'')]"
    by (simp add: seed_writes_eq category_info_def ROOT_def)
  from fetched_menu_complete [OF r i d n] r i d n m show ?thesis by (simp add: s_def)
qed

text \<open>
  C35. Divergence from spec sections 3 and 9 (categories read-only once built, the
  cache a hidden process-wide memo): a non-empty cached menu is never replaced. While
  no request of that instance is between its test and its assignment, every later
  interleaving keeps the instance's cache, and every request it then serves answers
  that menu. With concurrent first-time seeding the menu can be partial: the witness
  caches the menu of a half-seeded store on instance 1, which keeps answering it after
  the store is complete.
\<close>

theorem stale_menu_persists:
  assumes "class_cache s k = Some xs" and "xs \<noteq> []" and "\<forall>r. inst r = k \<longrightarrow> ipc s r \<noteq> Seeding"
  shows "class_cache (run_cache inst s sched) k = Some xs
         \<and> (\<forall>r. inst r = k \<longrightarrow> ipc s r = Start \<longrightarrow> ipc (run_cache inst s sched) r \<in> {Start, Answered xs})"
  using run_cache_stable [OF assms, of sched] by simp

theorem stale_menu_persists_witness:
  "class_cache (run_cache (\<lambda>r. r mod 2) cache_init [0, 0, 0, 0, 1, 1, 1, 0, 0, 0]) 1 = Some [(''smartphones'', ''smartphones'')] \<and>
   race_store (shared (run_cache (\<lambda>r. r mod 2) cache_init [0, 0, 0, 0, 1, 1, 1, 0, 0, 0])) = seed_writes \<and>
   class_cache (run_cache (\<lambda>r. r mod 2) (run_cache (\<lambda>r. r mod 2) cache_init [0, 0, 0, 0, 1, 1, 1, 0, 0, 0]) [3, 5]) 1 =
     Some [(''smartphones'', ''smartphones'')] \<and>
   ipc (run_cache (\<lambda>r. r mod 2) (run_cache (\<lambda>r. r mod 2) cache_init [0, 0, 0, 0, 1, 1, 1, 0, 0, 0]) [3, 5]) 3 =
     Answered [(''smartphones'', ''smartphones'')]"
proof -
  define s where "s = run_cache (\<lambda>r. r mod 2) cache_init [0, 0, 0, 0, 1, 1, 1, 0, 0, 0]"
  have c: "class_cache s 1 = Some [(''smartphones'', ''smartphones'')]"
    and st: "race_store (shared s) = seed_writes"
    and n: "\<forall>r. r mod 2 = (1::nat) \<longrightarrow> ipc s r \<noteq> Seeding"
    and i3: "ipc s 3 = Start" and i5: "ipc s 5 = Start"
    unfolding s_def by (simp_all add: cache_run_defs)
  from stale_menu_persists [OF c _ n, of "[3, 5]"]
  have "class_cache (run_cache (\<lambda>r. r mod 2) s [3, 5]) 1 = Some [(''smartphones'', ''smartphones'')]" by simp
  moreover have "ipc (run_cache (\<lambda>r. r mod 2) s [3, 5]) 3 = Answered [(''smartphones'', ''smartphones'')]"
    using c i3 i5 by (simp add: run_cache_def info_step_def)
  ultimately show ?thesis using c st by (simp add: s_def)
qed

end
