(* ===== verification/Products.thy ===== *)
theory Products
  imports Prelude
begin

text \<open>
  The class \<open>Product\<close> of \<open>src/models.py\<close>: the core fields of a product entity
  (\<open>doc_id\<close>, \<open>price\<close>, \<open>category\<close>, \<open>active\<close> with default \<open>True\<close>) keyed by the
  product id, \<open>Product.create\<close>, which builds the entity from a parameter dictionary
  and writes it, and \<open>update_core\<close>, which repopulates an entity in memory. Reading
  \<open>params[k]\<close> raises \<open>KeyError\<close> for a missing key (in the order the arguments are
  written). The constructor then builds the key from \<open>id=params['pid']\<close>, which ndb
  validates first: a string id must be non-empty and at most 1500 bytes, an integer
  id positive and below \<open>2^63\<close> (\<open>ValueError\<close>), any other type raises
  \<open>TypeError\<close>, and \<open>None\<close> leaves the key incomplete, so that \<open>put\<close> stores the
  entity under an id the datastore allocates (the parameter \<open>fresh\<close>). The
  properties validate what they are given: a \<open>FloatProperty\<close> takes a Python
  \<open>int\<close>, \<open>bool\<close> or \<open>float\<close> (as a float), an indexed \<open>StringProperty\<close> a
  string of at most 1500 bytes, both also \<open>None\<close>; anything else raises
  \<open>BadValueError\<close>. Strings are code points below 256, so a character of code 128
  or more takes two bytes in UTF-8. Which of two invalid properties is reported, and
  what a failing \<open>populate\<close> leaves set, depends on dictionary order; the model
  reports one \<open>BadValueError\<close> and changes nothing.
\<close>

record product =
  doc_id :: "string option"
  price :: "real option"
  category :: "string option"
  active :: bool

type_synonym product_store = "(py_value, product) kind_store"

type_synonym product_params = "(string \<times> py_value) list"

definition bad_value :: py_error where
  "bad_value = BadValueError ''invalid property value''"

definition validate_float :: "py_value \<Rightarrow> real option result" where
  "validate_float v =
     (case v of
        PyNone \<Rightarrow> Inr None
      | PyInt n \<Rightarrow> Inr (Some (of_int n))
      | PyBool b \<Rightarrow> Inr (Some (if b then 1 else 0))
      | PyFloat r \<Rightarrow> Inr (Some r)
      | PyStr _ \<Rightarrow> Inl bad_value)"

text \<open>The length of a string in UTF-8, each character a code point below 256.\<close>

definition utf8_length :: "string \<Rightarrow> nat" where
  "utf8_length s = sum_list (map (\<lambda>c. if of_char c < (128::nat) then 1 else 2) s)"

definition validate_string :: "py_value \<Rightarrow> string option result" where
  "validate_string v =
     (case v of
        PyNone \<Rightarrow> Inr None
      | PyStr s \<Rightarrow> if 1500 < utf8_length s then Inl bad_value else Inr (Some s)
      | _ \<Rightarrow> Inl bad_value)"

text \<open>
  The key id of \<open>cls(id=...)\<close>: \<open>None\<close> for an incomplete key, else the id, a
  \<open>bool\<close> being the integer it is in Python.
\<close>

definition validate_key_id :: "py_value \<Rightarrow> py_value option result" where
  "validate_key_id v =
     (case v of
        PyNone \<Rightarrow> Inr None
      | PyStr s \<Rightarrow>
          if s = [] \<or> 1500 < utf8_length s
          then Inl (ValueError ''Key name strings must be non-empty strings up to 1500 bytes'')
          else Inr (Some (PyStr s))
      | PyInt n \<Rightarrow>
          if n < 1 \<or> 2 ^ 63 \<le> n then Inl (ValueError ''Key id number is out of range'')
          else Inr (Some (PyInt n))
      | PyBool b \<Rightarrow>
          if b then Inr (Some (PyInt 1)) else Inl (ValueError ''Key id number is out of range'')
      | PyFloat _ \<Rightarrow> Inl (TypeError ''Key id must be a string or a number''))"

text \<open>The key \<open>put\<close> stores the entity under: its id, or the one allocated.\<close>

definition entity_key :: "py_value option \<Rightarrow> int \<Rightarrow> py_value" where
  "entity_key kid fresh = (case kid of Some k \<Rightarrow> k | None \<Rightarrow> PyInt fresh)"

text \<open>
  The values the schema admits, as the validation checks them: \<open>FloatProperty\<close>
  takes a number (\<open>int\<close>, \<open>bool\<close>, \<open>float\<close>) or \<open>None\<close>, an indexed
  \<open>StringProperty\<close> a string of at most 1500 bytes or \<open>None\<close>, and the key a
  non-empty string of at most 1500 bytes, an integer in \<open>[1, 2^63)\<close>, \<open>True\<close> or
  \<open>None\<close>.
\<close>

fun float_typed :: "py_value \<Rightarrow> bool" where
  "float_typed (PyStr _) = False"
| "float_typed _ = True"

fun string_typed :: "py_value \<Rightarrow> bool" where
  "string_typed PyNone = True"
| "string_typed (PyStr s) = (utf8_length s \<le> 1500)"
| "string_typed _ = False"

fun key_id_typed :: "py_value \<Rightarrow> bool" where
  "key_id_typed PyNone = True"
| "key_id_typed (PyStr s) = (s \<noteq> [] \<and> utf8_length s \<le> 1500)"
| "key_id_typed (PyInt n) = (1 \<le> n \<and> n < 2 ^ 63)"
| "key_id_typed (PyBool b) = b"
| "key_id_typed (PyFloat _) = False"

text \<open>\<open>params[k]\<close>.\<close>

definition param :: "product_params \<Rightarrow> string \<Rightarrow> py_value result" where
  "param ps k = (case map_of ps k of None \<Rightarrow> Inl (KeyError k) | Some v \<Rightarrow> Inr v)"

text \<open>
  The three properties of \<open>price=..., category=..., doc_id=...\<close>, validated; shared by
  the constructor and \<open>populate\<close>.
\<close>

definition core_values :: "py_value \<Rightarrow> py_value \<Rightarrow> py_value \<Rightarrow> (real option \<times> string option \<times> string option) result" where
  "core_values pr cat d =
     (case (validate_float pr, validate_string cat, validate_string d) of
        (Inr p, Inr c, Inr di) \<Rightarrow> Inr (p, c, di)
      | _ \<Rightarrow> Inl bad_value)"

text \<open>
  \<open>Product.create(params, doc_id)\<close>: read the three parameters, build the key, set
  the properties, put (the local \<open>prod\<close> is \<open>ent\<close>: \<open>prod\<close> is a HOL constant).
\<close>

definition create :: "product_params \<Rightarrow> py_value \<Rightarrow> int \<Rightarrow> product_store \<Rightarrow> product_store \<times> product result" where
  "create ps d fresh st =
     (case param ps ''pid'' of
        Inl e \<Rightarrow> (st, Inl e)
      | Inr pid \<Rightarrow> (case param ps ''price'' of
          Inl e \<Rightarrow> (st, Inl e)
        | Inr pr \<Rightarrow> (case param ps ''category'' of
            Inl e \<Rightarrow> (st, Inl e)
          | Inr cat \<Rightarrow> (case validate_key_id pid of
              Inl e \<Rightarrow> (st, Inl e)
            | Inr kid \<Rightarrow> (case core_values pr cat d of
                Inl e \<Rightarrow> (st, Inl e)
              | Inr (p, c, di) \<Rightarrow>
                  (let ent = \<lparr>doc_id = di, price = p, category = c, active = True\<rparr>
                   in (put (entity_key kid fresh) ent st, Inr ent)))))))"

text \<open>\<open>update_core(self, params, doc_id)\<close>: \<open>populate\<close> the three core fields; no \<open>put\<close>.\<close>

definition update_core :: "product \<Rightarrow> product_params \<Rightarrow> py_value \<Rightarrow> product result" where
  "update_core self ps d =
     (case param ps ''price'' of
        Inl e \<Rightarrow> Inl e
      | Inr pr \<Rightarrow> (case param ps ''category'' of
          Inl e \<Rightarrow> Inl e
        | Inr cat \<Rightarrow> (case core_values pr cat d of
            Inl e \<Rightarrow> Inl e
          | Inr (p, c, di) \<Rightarrow> Inr (self\<lparr>price := p, category := c, doc_id := di\<rparr>))))"

text \<open>
  A stored entity is its key with its properties; the property \<open>Product.pid\<close> is the
  key's id (\<open>product_pid\<close>: the name \<open>pid\<close> is the local of \<open>create\<close>).
\<close>

definition product_pid :: "py_value \<times> product \<Rightarrow> py_value" where
  "product_pid e = fst e"

section \<open>Lemmas\<close>

lemma param_Some [simp]: "map_of ps k = Some v \<Longrightarrow> param ps k = Inr v"
  by (simp add: param_def)

lemma param_None [simp]: "map_of ps k = None \<Longrightarrow> param ps k = Inl (KeyError k)"
  by (simp add: param_def)

lemma validate_key_id_Inr:
  assumes "validate_key_id v = Inr kid"
  shows "key_id_typed v \<and>
    entity_key kid fresh = (case v of PyNone \<Rightarrow> PyInt fresh | PyBool _ \<Rightarrow> PyInt 1 | _ \<Rightarrow> v)"
  using assms
  by (cases v) (auto simp: validate_key_id_def entity_key_def split: if_splits)

lemma validate_key_id_Inl:
  assumes "validate_key_id v = Inl e"
  shows "\<not> key_id_typed v \<and> ((\<exists>m. e = ValueError m) \<or> (\<exists>m r. e = TypeError m \<and> v = PyFloat r))"
  using assms
  by (cases v) (auto simp: validate_key_id_def split: if_splits)

lemma validate_key_id_typed: "(\<exists>k. validate_key_id v = Inr k) \<longleftrightarrow> key_id_typed v"
  by (cases v) (auto simp: validate_key_id_def)

lemma create_Inr:
  assumes "create ps d fresh st = (st', Inr ent)"
  obtains pid pr cat kid where "map_of ps ''pid'' = Some pid" and "map_of ps ''price'' = Some pr"
    and "map_of ps ''category'' = Some cat" and "validate_key_id pid = Inr kid"
    and "core_values pr cat d = Inr (price ent, category ent, doc_id ent)"
    and "active ent" and "st' = put (entity_key kid fresh) ent st"
  using assms
  by (auto simp: create_def param_def Let_def split: option.splits sum.splits prod.splits)

lemma create_Inl: "create ps d fresh st = (st', Inl e) \<Longrightarrow> st' = st"
  by (auto simp: create_def param_def Let_def split: option.splits sum.splits prod.splits)

lemma create_pid:
  assumes "create ps d fresh st = (st', Inr ent)" and "map_of ps ''pid'' = Some (PyStr s)"
  shows "\<exists>e \<in> set st'. product_pid e = PyStr s \<and> snd e = ent"
proof -
  obtain kid where "validate_key_id (PyStr s) = Inr kid" and "st' = put (entity_key kid fresh) ent st"
    using assms(1) by (rule create_Inr) (use assms(2) in simp)
  then have "map_of st' (PyStr s) = Some ent"
    by (auto simp: validate_key_id_def entity_key_def split: if_splits)
  then have "(PyStr s, ent) \<in> set st'" by (rule map_of_SomeD)
  then show ?thesis by (force simp: product_pid_def)
qed

lemma update_core_Inr:
  assumes "update_core e ps d = Inr e'"
  obtains pr cat where "map_of ps ''price'' = Some pr" and "map_of ps ''category'' = Some cat"
    and "core_values pr cat d = Inr (price e', category e', doc_id e')"
    and "e' = e\<lparr>price := price e', category := category e', doc_id := doc_id e'\<rparr>"
  using assms
  by (auto simp: update_core_def param_def split: option.splits sum.splits prod.splits)

lemma validate_float_typed: "(\<exists>r. validate_float v = Inr r) \<longleftrightarrow> float_typed v"
  by (cases v) (simp_all add: validate_float_def)

lemma validate_string_typed: "(\<exists>r. validate_string v = Inr r) \<longleftrightarrow> string_typed v"
  by (cases v) (simp_all add: validate_string_def)

lemma core_values_typed:
  "(\<exists>x. core_values pr cat d = Inr x) \<longleftrightarrow> float_typed pr \<and> string_typed cat \<and> string_typed d"
  using validate_float_typed [of pr] validate_string_typed [of cat] validate_string_typed [of d]
  by (auto simp: core_values_def split: sum.splits)

lemmas product_eval = create_def core_values_def validate_float_def validate_string_def
  validate_key_id_def entity_key_def utf8_length_def Let_def

lemma example_create:
  "create [(''pid'', PyStr ''p1''), (''price'', PyInt 199), (''category'', PyStr ''Laptops'')] (PyStr ''doc1'') 7 [] =
     ([(PyStr ''p1'', \<lparr>doc_id = Some ''doc1'', price = Some 199, category = Some ''Laptops'', active = True\<rparr>)],
      Inr \<lparr>doc_id = Some ''doc1'', price = Some 199, category = Some ''Laptops'', active = True\<rparr>)"
  by (simp add: product_eval)

section \<open>Properties of product records\<close>

text \<open>
  C18. \<open>Product.create\<close> writes one entity: after a successful call the \<open>pid\<close>
  parameter is a valid key id and the store maps the key to the returned entity,
  which is active, every other product as before. The key is the id itself for a
  string or an integer, \<open>1\<close> for \<open>True\<close>, and the allocated id \<open>fresh\<close> for \<open>None\<close>.
\<close>

theorem create_stores_entity:
  assumes "create ps d fresh st = (st', Inr ent)"
  shows "\<exists>v. map_of ps ''pid'' = Some v \<and> key_id_typed v \<and> active ent \<and>
    map_of st' = (map_of st)((case v of PyNone \<Rightarrow> PyInt fresh | PyBool _ \<Rightarrow> PyInt 1 | _ \<Rightarrow> v) \<mapsto> ent)"
  using assms
proof (rule create_Inr)
  fix pid pr cat kid
  assume "map_of ps ''pid'' = Some pid" "validate_key_id pid = Inr kid" "active ent"
    "st' = put (entity_key kid fresh) ent st"
  with validate_key_id_Inr [of pid kid fresh] show ?thesis by auto
qed

theorem create_stores_entity_witness:
  "create [(''pid'', PyNone), (''price'', PyInt 199), (''category'', PyStr ''Laptops'')] (PyStr ''doc1'') 7 [] =
     ([(PyInt 7, \<lparr>doc_id = Some ''doc1'', price = Some 199, category = Some ''Laptops'', active = True\<rparr>)],
      Inr \<lparr>doc_id = Some ''doc1'', price = Some 199, category = Some ''Laptops'', active = True\<rparr>) \<and>
   map_of [(PyInt 7, \<lparr>doc_id = Some ''doc1'', price = Some 199, category = Some ''Laptops'', active = True\<rparr>)] =
     (map_of [])(PyInt 7 \<mapsto> \<lparr>doc_id = Some ''doc1'', price = Some 199, category = Some ''Laptops'', active = True\<rparr>)"
proof -
  have c: "create [(''pid'', PyNone), (''price'', PyInt 199), (''category'', PyStr ''Laptops'')] (PyStr ''doc1'') 7 [] =
     ([(PyInt 7, \<lparr>doc_id = Some ''doc1'', price = Some 199, category = Some ''Laptops'', active = True\<rparr>)],
      Inr \<lparr>doc_id = Some ''doc1'', price = Some 199, category = Some ''Laptops'', active = True\<rparr>)"
    by (simp add: product_eval)
  from create_stores_entity [OF c] c show ?thesis by simp
qed

text \<open>
  C19. Error paths of \<open>Product.create\<close>: a failed call writes nothing, and its
  exception is the \<open>KeyError\<close> of a missing \<open>pid\<close>, \<open>price\<close> or \<open>category\<close>
  parameter (the first missing one, in that order), the \<open>ValueError\<close> or
  \<open>TypeError\<close> (the latter for a float) of building the key from an invalid id, or,
  with a valid key id, the \<open>BadValueError\<close> of a value its property rejects.
\<close>

theorem create_errors:
  assumes "create ps d fresh st = (st', Inl e)"
  shows "st' = st \<and>
    (e = KeyError ''pid'' \<and> map_of ps ''pid'' = None
     \<or> e = KeyError ''price'' \<and> map_of ps ''pid'' \<noteq> None \<and> map_of ps ''price'' = None
     \<or> e = KeyError ''category'' \<and> map_of ps ''pid'' \<noteq> None \<and> map_of ps ''price'' \<noteq> None
          \<and> map_of ps ''category'' = None
     \<or> (\<exists>v. map_of ps ''pid'' = Some v \<and> map_of ps ''price'' \<noteq> None \<and> map_of ps ''category'' \<noteq> None
          \<and> \<not> key_id_typed v \<and> ((\<exists>m. e = ValueError m) \<or> (\<exists>m r. e = TypeError m \<and> v = PyFloat r)))
     \<or> e = bad_value \<and> (\<exists>v. map_of ps ''pid'' = Some v \<and> key_id_typed v))"
proof -
  have kt: "validate_key_id v = Inr k \<Longrightarrow> key_id_typed v" for v k
    using validate_key_id_Inr [of v k 0] by simp
  have "st' = st" using assms by (rule create_Inl)
  then show ?thesis
    using assms validate_key_id_Inl kt
    by (auto simp: create_def param_def core_values_def Let_def split: option.splits sum.splits prod.splits)
qed

theorem create_errors_witness:
  "create [(''pid'', PyStr ''p1''), (''category'', PyStr ''Laptops'')] (PyStr ''doc1'') 7 [] = ([], Inl (KeyError ''price'')) \<and>
   map_of [(''pid'', PyStr ''p1''), (''category'', PyStr ''Laptops'')] ''price'' = None \<and>
   create [(''pid'', PyStr []), (''price'', PyInt 1), (''category'', PyStr ''Laptops'')] (PyStr ''doc1'') 7 [] =
     ([], Inl (ValueError ''Key name strings must be non-empty strings up to 1500 bytes''))"
proof -
  have c: "create [(''pid'', PyStr ''p1''), (''category'', PyStr ''Laptops'')] (PyStr ''doc1'') 7 [] = ([], Inl (KeyError ''price''))"
    by (simp add: create_def)
  have k: "create [(''pid'', PyStr []), (''price'', PyInt 1), (''category'', PyStr ''Laptops'')] (PyStr ''doc1'') 7 [] =
     ([], Inl (ValueError ''Key name strings must be non-empty strings up to 1500 bytes''))"
    by (simp add: product_eval)
  from create_errors [OF c] create_errors [OF k] c k show ?thesis by simp
qed

text \<open>
  C20. \<open>update_core\<close> against \<open>create\<close>: where both succeed on the same parameters,
  the entity \<open>update_core\<close> returns is the one \<open>create\<close> would write except that it
  keeps its \<open>active\<close> flag, which \<open>create\<close> resets to \<open>True\<close>; \<open>update_core\<close>
  itself writes nothing.
\<close>

theorem update_core_vs_create:
  assumes "update_core e ps d = Inr e'" and "create ps d fresh st = (st', Inr c)"
  shows "e' = c\<lparr>active := active e\<rparr>"
proof -
  from assms(2) obtain pr cat where pr: "map_of ps ''price'' = Some pr" and cat: "map_of ps ''category'' = Some cat"
    and cv: "core_values pr cat d = Inr (price c, category c, doc_id c)"
    by (rule create_Inr) simp
  from assms(1) obtain pr' cat' where "map_of ps ''price'' = Some pr'" and "map_of ps ''category'' = Some cat'"
    and cv': "core_values pr' cat' d = Inr (price e', category e', doc_id e')"
    and e': "e' = e\<lparr>price := price e', category := category e', doc_id := doc_id e'\<rparr>"
    by (rule update_core_Inr)
  with pr cat cv have "price e' = price c \<and> category e' = category c \<and> doc_id e' = doc_id c" by simp
  with e' show ?thesis by (cases e, cases c) simp
qed

theorem update_core_vs_create_witness:
  "update_core \<lparr>doc_id = Some ''old'', price = Some 5, category = Some ''x'', active = False\<rparr>
     [(''pid'', PyStr ''p1''), (''price'', PyInt 199), (''category'', PyStr ''Laptops'')] (PyStr ''doc1'')
     = Inr \<lparr>doc_id = Some ''doc1'', price = Some 199, category = Some ''Laptops'', active = False\<rparr> \<and>
   create [(''pid'', PyStr ''p1''), (''price'', PyInt 199), (''category'', PyStr ''Laptops'')] (PyStr ''doc1'') 7 [] =
     ([(PyStr ''p1'', \<lparr>doc_id = Some ''doc1'', price = Some 199, category = Some ''Laptops'', active = True\<rparr>)],
      Inr \<lparr>doc_id = Some ''doc1'', price = Some 199, category = Some ''Laptops'', active = True\<rparr>) \<and>
   \<lparr>doc_id = Some ''doc1'', price = Some 199, category = Some ''Laptops'', active = False\<rparr> =
     \<lparr>doc_id = Some ''doc1'', price = Some 199, category = Some ''Laptops'', active = True\<rparr>\<lparr>active := False\<rparr>"
proof -
  have u: "update_core \<lparr>doc_id = Some ''old'', price = Some 5, category = Some ''x'', active = False\<rparr>
     [(''pid'', PyStr ''p1''), (''price'', PyInt 199), (''category'', PyStr ''Laptops'')] (PyStr ''doc1'')
     = Inr \<lparr>doc_id = Some ''doc1'', price = Some 199, category = Some ''Laptops'', active = False\<rparr>"
    by (simp add: update_core_def product_eval)
  show ?thesis using update_core_vs_create [OF u example_create] u example_create by simp
qed

text \<open>
  C32. The schema as a type discipline: \<open>Product.create\<close> succeeds exactly when the
  parameters hold \<open>pid\<close>, \<open>price\<close> and \<open>category\<close>, the \<open>pid\<close> is a valid key id,
  and the price, the category and the document id are values their properties admit
  (a number; strings of at most 1500 bytes; or \<open>None\<close>). No range of the price and
  no known category is checked.
\<close>

theorem create_type_check:
  "(\<exists>st' ent. create ps d fresh st = (st', Inr ent)) \<longleftrightarrow>
   (\<exists>pid pr cat. map_of ps ''pid'' = Some pid \<and> map_of ps ''price'' = Some pr
      \<and> map_of ps ''category'' = Some cat \<and> key_id_typed pid
      \<and> float_typed pr \<and> string_typed cat \<and> string_typed d)"
proof -
  have "(\<exists>st' ent. create ps d fresh st = (st', Inr ent)) \<longleftrightarrow>
        (\<exists>pid pr cat. map_of ps ''pid'' = Some pid \<and> map_of ps ''price'' = Some pr
           \<and> map_of ps ''category'' = Some cat \<and> (\<exists>k. validate_key_id pid = Inr k)
           \<and> (\<exists>x. core_values pr cat d = Inr x))"
    by (auto simp: create_def param_def Let_def split: option.splits sum.splits prod.splits)
  then show ?thesis unfolding core_values_typed validate_key_id_typed .
qed

theorem create_type_check_witness:
  "(\<exists>st' ent. create [(''pid'', PyInt 2), (''price'', PyInt (-5)), (''category'', PyStr ''no such'')] PyNone 7 [] = (st', Inr ent)) \<and>
   \<not> (\<exists>st' ent. create [(''pid'', PyInt 0), (''price'', PyInt 5), (''category'', PyStr ''Laptops'')] PyNone 7 [] = (st', Inr ent)) \<and>
   \<not> (\<exists>st' ent. create [(''pid'', PyStr ''p2''), (''price'', PyStr ''5''), (''category'', PyStr ''Laptops'')] PyNone 7 [] = (st', Inr ent))"
  using create_type_check [of "[(''pid'', PyInt 2), (''price'', PyInt (-5)), (''category'', PyStr ''no such'')]" PyNone 7 "[]"]
    create_type_check [of "[(''pid'', PyInt 0), (''price'', PyInt 5), (''category'', PyStr ''Laptops'')]" PyNone 7 "[]"]
    create_type_check [of "[(''pid'', PyStr ''p2''), (''price'', PyStr ''5''), (''category'', PyStr ''Laptops'')]" PyNone 7 "[]"]
  by (simp add: utf8_length_def)

end
