(* ===== verification/Handlers.thy ===== *)
theory Handlers
  imports Pagination Query Categories
begin

text \<open>
  The request handlers of \<open>src/handlers.py\<close> as functions of the request, the
  environment and the persistent state they change (the category class and store).
  A request's parameters are an association list read as \<open>self.request.get(k, d)\<close>
  (the first value of \<open>k\<close>, else \<open>d\<close>). The external collaborators are explicit:
  the product index (\<open>docs.Product.getDocFromPid\<close>), the store-location search
  (\<open>search.Index.search\<close> with the SDK's own checks), the sort menu and the user
  service are inputs; a response records the template and the values the handler
  renders, a redirect or an abort; an uncaught exception is an \<open>Inl\<close>.
\<close>

section \<open>Requests and responses\<close>

type_synonym request = "(string \<times> string) list"

text \<open>\<open>parseParams\<close>: each allowed key with the request's value or its default.\<close>

definition parseParams :: "(string \<times> string) list \<Rightarrow> request \<Rightarrow> params" where
  "parseParams defaults req = map (\<lambda>(k, d). (k, param_get req k d)) defaults"

definition SHOW_PRODUCT_PARAMS :: "(string \<times> string) list" where
  "SHOW_PRODUCT_PARAMS = [(''pid'', []), (''pname'', []), (''category'', [])]"

definition PRODUCT_SEARCH_PARAMS :: "(string \<times> string) list" where
  "PRODUCT_SEARCH_PARAMS = [(''qtype'', []), (''query'', []), (''category'', []), (''sort'', []), (''offset'', ''0'')]"

text \<open>A product search document as \<open>docs.Product\<close> reads it.\<close>

record product_doc =
  pd_name :: string
  pd_category :: string

definition getDocFromPid :: "(string \<times> product_doc) list \<Rightarrow> string \<Rightarrow> product_doc option" where
  "getDocFromPid index pid = map_of index pid"

record store_doc =
  sd_address :: "string option"
  sd_name :: "string option"
  sd_location :: "(real \<times> real) option"

record store_json =
  js_addr :: "string option"
  js_storename :: "string option"
  js_lat :: real
  js_lon :: real

record store_query =
  lq_query_string :: string
  lq_sort_expression :: string

datatype store_search_result = StoreResults "store_doc list" | SearchError

record handler_env =
  product_index :: "(string \<times> product_doc) list"
  sort_menu :: "(string \<times> string) list"
  app_url :: string
  current_user :: bool
  doc_limit_cfg :: py_value
  store_search :: "store_query \<Rightarrow> store_search_result"

datatype response =
    IndexPage "(string \<times> string) list" "(string \<times> string) list"
  | Notification string string string string
  | ProductPage string string string string product_doc bool
  | HttpAbort nat string
  | Redirect string params
  | Json "store_json list"

section \<open>IndexHandler\<close>

definition index_get :: "handler_env \<Rightarrow> category_class \<Rightarrow> category_class \<times> response result" where
  "index_get env c =
     (case getCategoryInfo c of
        (c', Inl e) \<Rightarrow> (c', Inl e)
      | (c', Inr cat_info) \<Rightarrow> (c', Inr (IndexPage cat_info (sort_menu env))))"

section \<open>ShowProductHandler\<close>

definition show_product_get :: "handler_env \<Rightarrow> request \<Rightarrow> response" where
  "show_product_get env req =
     (let params = parseParams SHOW_PRODUCT_PARAMS req;
          pid = param_get params ''pid'' []
      in if pid = [] then
           Notification ''Error'' ''Error: do not have product id.'' ''/'' ''Go to product search page.''
         else case getDocFromPid (product_index env) pid of
           None \<Rightarrow> HttpAbort 404 (''Document not found for pid '' @ pid @ ''.'')
         | Some doc \<Rightarrow> ProductPage (app_url env) pid (pd_name doc) (pd_category doc) doc (current_user env))"

section \<open>ProductSearchHandler\<close>

text \<open>\<open>post\<close>: redirect to the search page with the parsed parameters, UTF-8 encoded.\<close>

definition product_search_post :: "request \<Rightarrow> response" where
  "product_search_post req = Redirect ''/psearch'' (parseParams PRODUCT_SEARCH_PARAMS req)"

text \<open>
  \<open>doProductSearch\<close>, statement by statement. The search call that would define
  \<open>search_results\<close> (and \<open>returned_count\<close>) is missing, so the loop over
  \<open>search_results\<close> raises \<open>NameError\<close> after the category menu, the page size,
  the filtered query, the sort key and the offset have been computed.
\<close>

definition search_results_error :: py_error where
  "search_results_error = NameError ''global name 'search_results' is not defined''"

definition doProductSearch :: "handler_env \<Rightarrow> params \<Rightarrow> category_class \<Rightarrow> category_class \<times> response result" where
  "doProductSearch env params c =
     (case getCategoryInfo c of
        (c', Inl e) \<Rightarrow> (c', Inl e)
      | (c', Inr cat_info) \<Rightarrow>
          (let query = param_get params ''query'' [];
               user_query = query
           in case getDocLimit (doc_limit_cfg env) of
                Inl e \<Rightarrow> (c', Inl e)
              | Inr doc_limit \<Rightarrow>
                  (let categoryq = map_of params ''category'';
                       query = add_category_filter query categoryq;
                       sortq = map_of params ''sort'';
                       offsetval = parse_offset params
                   in (c', Inl search_results_error))))"

definition product_search_get :: "handler_env \<Rightarrow> request \<Rightarrow> category_class \<Rightarrow> category_class \<times> response result" where
  "product_search_get env req c = doProductSearch env (parseParams PRODUCT_SEARCH_PARAMS req) c"

section \<open>StoreLocationHandler\<close>

text \<open>
  The geo search: the sort expression embeds the request's latitude and longitude
  text as it is; \<open>search.Error\<close> from the search is caught and answered with an empty
  JSON list; a result without a \<open>store_location\<close> field makes
  \<open>geopoint.latitude\<close> raise \<open>AttributeError\<close>, which is not caught.
\<close>

definition location_expression :: "string \<Rightarrow> string \<Rightarrow> string" where
  "location_expression lat lon = ''distance(store_location, geopoint('' @ lat @ '', '' @ lon @ ''))''"

fun store_response :: "store_doc list \<Rightarrow> store_json list result" where
  "store_response [] = Inr []"
| "store_response (d # ds) =
     (case sd_location d of
        None \<Rightarrow> Inl (AttributeError ''NoneType object has no attribute latitude'')
      | Some (la, lo) \<Rightarrow>
          (case store_response ds of
             Inl e \<Rightarrow> Inl e
           | Inr js \<Rightarrow> Inr (\<lparr>js_addr = sd_address d, js_storename = sd_name d, js_lat = la, js_lon = lo\<rparr> # js)))"

definition store_request_query :: "request \<Rightarrow> store_query" where
  "store_request_query req =
     (let query = param_get req ''location_query'' [];
          lat = param_get req ''latitude'' [];
          lon = param_get req ''longitude'' [];
          loc_expr = location_expression lat lon
      in \<lparr>lq_query_string = py_strip query, lq_sort_expression = loc_expr\<rparr>)"

definition store_location_get :: "handler_env \<Rightarrow> request \<Rightarrow> response result" where
  "store_location_get env req =
     (case store_search env (store_request_query req) of
           SearchError \<Rightarrow> Inr (Json [])
         | StoreResults results \<Rightarrow> map_sum id Json (store_response results))"

text \<open>An environment whose store search answers every query with \<open>r\<close>.\<close>

definition example_store_env :: "store_search_result \<Rightarrow> handler_env" where
  "example_store_env r = \<lparr>product_index = [], sort_menu = [], app_url = [], current_user = False,
     doc_limit_cfg = DOC_LIMIT, store_search = (\<lambda>_. r)\<rparr>"

section \<open>Lemmas\<close>

lemma map_of_parseParams:
  "distinct (map fst defs) \<Longrightarrow> (k, d) \<in> set defs \<Longrightarrow> map_of (parseParams defs req) k = Some (param_get req k d)"
proof (induction defs)
  case (Cons kd defs)
  then show ?case by (cases kd) (force simp: parseParams_def)
qed simp

lemma keys_parseParams [simp]: "map fst (parseParams defs req) = map fst defs"
  by (induction defs) (auto simp: parseParams_def)

lemma parseParams_idem:
  "distinct (map fst defs) \<Longrightarrow> parseParams defs (parseParams defs req) = parseParams defs req"
proof -
  assume d: "distinct (map fst defs)"
  have "\<forall>(k, dflt) \<in> set defs. param_get (parseParams defs req) k dflt = param_get req k dflt"
    using map_of_parseParams [OF d] by (auto simp: param_get_def)
  then show ?thesis unfolding parseParams_def [of defs "parseParams defs req"]
    by (simp add: parseParams_def [symmetric] map_ext) (auto simp: parseParams_def)
qed

lemma store_response_ok:
  "\<forall>d \<in> set ds. sd_location d \<noteq> None \<Longrightarrow>
   \<exists>js. store_response ds = Inr js \<and> length js = length ds \<and>
     (\<forall>i < length ds. sd_location (ds ! i) = Some (js_lat (js ! i), js_lon (js ! i))
        \<and> js_addr (js ! i) = sd_address (ds ! i) \<and> js_storename (js ! i) = sd_name (ds ! i))"
proof (induction ds)
  case (Cons d ds)
  then obtain js where js: "store_response ds = Inr js" "length js = length ds"
    and p: "\<forall>i < length ds. sd_location (ds ! i) = Some (js_lat (js ! i), js_lon (js ! i))
        \<and> js_addr (js ! i) = sd_address (ds ! i) \<and> js_storename (js ! i) = sd_name (ds ! i)"
    by auto
  from Cons.prems obtain la lo where l: "sd_location d = Some (la, lo)" by auto
  let ?j = "\<lparr>js_addr = sd_address d, js_storename = sd_name d, js_lat = la, js_lon = lo\<rparr>"
  have "store_response (d # ds) = Inr (?j # js)" using js l by simp
  moreover have "\<forall>i < length (d # ds). sd_location ((d # ds) ! i) = Some (js_lat ((?j # js) ! i), js_lon ((?j # js) ! i))
        \<and> js_addr ((?j # js) ! i) = sd_address ((d # ds) ! i) \<and> js_storename ((?j # js) ! i) = sd_name ((d # ds) ! i)"
    using p l by (auto simp: nth_Cons split: nat.splits)
  ultimately show ?case using js by auto
qed simp

lemma store_response_missing:
  "\<exists>d \<in> set ds. sd_location d = None \<Longrightarrow> \<exists>m. store_response ds = Inl (AttributeError m)"
proof (induction ds)
  case (Cons a ds)
  show ?case
  proof (cases "sd_location a")
    case None
    then show ?thesis by simp
  next
    case (Some p)
    with Cons.prems have "\<exists>d \<in> set ds. sd_location d = None" by auto
    with Cons.IH obtain m where "store_response ds = Inl (AttributeError m)" by blast
    with Some show ?thesis by (cases p) simp
  qed
qed simp

lemma distinct_search_params: "distinct (map fst PRODUCT_SEARCH_PARAMS)"
  by (simp add: PRODUCT_SEARCH_PARAMS_def)

lemma show_pid: "param_get (parseParams SHOW_PRODUCT_PARAMS req) ''pid'' [] = param_get req ''pid'' []"
  by (simp add: SHOW_PRODUCT_PARAMS_def parseParams_def param_get_def)

lemma show_product_get_eq:
  "show_product_get env req =
     (if param_get req ''pid'' [] = [] then
        Notification ''Error'' ''Error: do not have product id.'' ''/'' ''Go to product search page.''
      else case map_of (product_index env) (param_get req ''pid'' []) of
        None \<Rightarrow> HttpAbort 404 (''Document not found for pid '' @ param_get req ''pid'' [] @ ''.'')
      | Some doc \<Rightarrow> ProductPage (app_url env) (param_get req ''pid'' []) (pd_name doc) (pd_category doc) doc
                      (current_user env))"
  unfolding show_product_get_def Let_def show_pid getDocFromPid_def ..

section \<open>Properties of the handlers\<close>

text \<open>
  C21. \<open>parseParams\<close> filters the request to the allow-list: the result has exactly the
  allowed keys, in order, each with the request's value or its default; any other
  request parameter is dropped.
\<close>

theorem parseParams_allow_list:
  assumes "distinct (map fst defs)"
  shows "map fst (parseParams defs req) = map fst defs \<and>
         (\<forall>k d. (k, d) \<in> set defs \<longrightarrow> map_of (parseParams defs req) k = Some (param_get req k d))"
  using map_of_parseParams [OF assms] by simp

theorem parseParams_allow_list_witness:
  "distinct (map fst PRODUCT_SEARCH_PARAMS) \<and>
   parseParams PRODUCT_SEARCH_PARAMS [(''query'', ''shoes''), (''debug'', ''1'')] =
     [(''qtype'', []), (''query'', ''shoes''), (''category'', []), (''sort'', []), (''offset'', ''0'')] \<and>
   map fst (parseParams PRODUCT_SEARCH_PARAMS [(''query'', ''shoes''), (''debug'', ''1'')]) = map fst PRODUCT_SEARCH_PARAMS"
  using parseParams_allow_list [OF distinct_search_params, of "[(''query'', ''shoes''), (''debug'', ''1'')]"]
    distinct_search_params
  by (simp add: PRODUCT_SEARCH_PARAMS_def parseParams_def param_get_def)

text \<open>
  C22. Round trip from \<open>post\<close> to \<open>get\<close>: \<open>post\<close> always answers with a redirect to
  \<open>/psearch\<close> whose query string holds exactly the allow-listed keys, and the \<open>get\<close>
  that follows parses from it the same parameters it would have parsed from the
  request the \<open>post\<close> received: no value is lost or changed on the way.
\<close>

theorem post_get_roundtrip:
  "\<exists>p. product_search_post req = Redirect ''/psearch'' p \<and> map fst p = map fst PRODUCT_SEARCH_PARAMS
       \<and> parseParams PRODUCT_SEARCH_PARAMS p = parseParams PRODUCT_SEARCH_PARAMS req"
  using parseParams_idem [OF distinct_search_params]
  by (simp add: product_search_post_def parseParams_def case_prod_beta)

text \<open>
  C23. The product page shows the indexed document: when \<open>ShowProductHandler.get\<close>
  renders a product, its id is the request's non-empty \<open>pid\<close>, the document is the
  one the index holds for it, and the name and category shown are the document's,
  whatever \<open>pname\<close> and \<open>category\<close> the request carries.
\<close>

theorem show_product_page:
  assumes "show_product_get env req = ProductPage u pid n c doc admin"
  shows "pid = param_get req ''pid'' [] \<and> pid \<noteq> [] \<and> map_of (product_index env) pid = Some doc
         \<and> n = pd_name doc \<and> c = pd_category doc"
  using assms by (auto simp: show_product_get_eq split: if_splits option.splits)

theorem show_product_page_witness:
  "show_product_get \<lparr>product_index = [(''p1'', \<lparr>pd_name = ''Phone'', pd_category = ''smartphones''\<rparr>)],
      sort_menu = [], app_url = ''http://app/'', current_user = False, doc_limit_cfg = DOC_LIMIT,
      store_search = (\<lambda>_. SearchError)\<rparr> [(''pid'', ''p1''), (''pname'', ''Other'')] =
     ProductPage ''http://app/'' ''p1'' ''Phone'' ''smartphones'' \<lparr>pd_name = ''Phone'', pd_category = ''smartphones''\<rparr> False \<and>
   ''p1'' = param_get [(''pid'', ''p1''), (''pname'', ''Other'')] ''pid'' [] \<and> ''Phone'' = pd_name \<lparr>pd_name = ''Phone'', pd_category = ''smartphones''\<rparr>"
proof -
  have g: "show_product_get \<lparr>product_index = [(''p1'', \<lparr>pd_name = ''Phone'', pd_category = ''smartphones''\<rparr>)],
      sort_menu = [], app_url = ''http://app/'', current_user = False, doc_limit_cfg = DOC_LIMIT,
      store_search = (\<lambda>_. SearchError)\<rparr> [(''pid'', ''p1''), (''pname'', ''Other'')] =
     ProductPage ''http://app/'' ''p1'' ''Phone'' ''smartphones'' \<lparr>pd_name = ''Phone'', pd_category = ''smartphones''\<rparr> False"
    by (simp add: show_product_get_eq param_get_def)
  from show_product_page [OF g] g show ?thesis by simp
qed

text \<open>
  C24. Error paths of \<open>ShowProductHandler.get\<close> (spec section 7): without a product id
  it renders the error notification; with an id the index does not hold it aborts
  with 404 (the \<open>logging.error\<close> after the \<open>return\<close> never runs).
\<close>

theorem show_product_errors:
  "(param_get req ''pid'' [] = [] \<longrightarrow> show_product_get env req =
       Notification ''Error'' ''Error: do not have product id.'' ''/'' ''Go to product search page.'')
   \<and> (param_get req ''pid'' [] \<noteq> [] \<longrightarrow> map_of (product_index env) (param_get req ''pid'' []) = None \<longrightarrow>
       show_product_get env req = HttpAbort 404 (''Document not found for pid '' @ param_get req ''pid'' [] @ ''.''))"
  by (simp add: show_product_get_eq)

theorem show_product_errors_witness:
  "param_get [(''pid'', ''p9'')] ''pid'' [] \<noteq> [] \<and>
   map_of (product_index \<lparr>product_index = [], sort_menu = [], app_url = [], current_user = False,
      doc_limit_cfg = DOC_LIMIT, store_search = (\<lambda>_. SearchError)\<rparr>) (param_get [(''pid'', ''p9'')] ''pid'' []) = None \<and>
   show_product_get \<lparr>product_index = [], sort_menu = [], app_url = [], current_user = False,
      doc_limit_cfg = DOC_LIMIT, store_search = (\<lambda>_. SearchError)\<rparr> [(''pid'', ''p9'')] =
     HttpAbort 404 (''Document not found for pid '' @ ''p9'' @ ''.'') \<and>
   show_product_get \<lparr>product_index = [], sort_menu = [], app_url = [], current_user = False,
      doc_limit_cfg = DOC_LIMIT, store_search = (\<lambda>_. SearchError)\<rparr> [] =
     Notification ''Error'' ''Error: do not have product id.'' ''/'' ''Go to product search page.''"
  using show_product_errors [of "[(''pid'', ''p9'')]"] show_product_errors [of "[]"]
  by (simp add: param_get_def)

text \<open>
  C25. A product search never renders results: once the page size reads, every
  \<open>ProductSearchHandler.get\<close> ends in \<open>NameError\<close> on \<open>search_results\<close>, and its
  only lasting effect is the category initialisation of \<open>getCategoryInfo\<close>.
\<close>

theorem product_search_always_fails:
  assumes "getDocLimit (doc_limit_cfg env) = Inr dl"
  shows "product_search_get env req c = (fst (getCategoryInfo c), Inl search_results_error)"
  using assms by (auto simp: product_search_get_def doProductSearch_def getCategoryInfo_eq Let_def)

theorem product_search_always_fails_witness:
  "getDocLimit (doc_limit_cfg \<lparr>product_index = [], sort_menu = [], app_url = [], current_user = False,
      doc_limit_cfg = DOC_LIMIT, store_search = (\<lambda>_. SearchError)\<rparr>) = Inr 3 \<and>
   product_search_get \<lparr>product_index = [], sort_menu = [], app_url = [], current_user = False,
      doc_limit_cfg = DOC_LIMIT, store_search = (\<lambda>_. SearchError)\<rparr> [(''query'', ''shoes'')]
      \<lparr>cat_store = [], CATEGORY_INFO = None\<rparr> =
     (fst (getCategoryInfo \<lparr>cat_store = [], CATEGORY_INFO = None\<rparr>), Inl search_results_error)"
  using product_search_always_fails [of "\<lparr>product_index = [], sort_menu = [], app_url = [], current_user = False,
      doc_limit_cfg = DOC_LIMIT, store_search = (\<lambda>_. SearchError)\<rparr>" 3] by simp

text \<open>
  C26. The store-location search (spec section 7): a \<open>search.Error\<close> is answered with
  an empty JSON list; results that all carry a location are answered with one JSON
  object per result, in order, with its address, name and coordinates.
\<close>

theorem store_location_results:
  "(store_search env (store_request_query req) = SearchError \<longrightarrow> store_location_get env req = Inr (Json []))
   \<and> (store_search env (store_request_query req) = StoreResults ds \<longrightarrow> (\<forall>d \<in> set ds. sd_location d \<noteq> None) \<longrightarrow>
       (\<exists>js. store_location_get env req = Inr (Json js) \<and> length js = length ds \<and>
          (\<forall>i < length ds. sd_location (ds ! i) = Some (js_lat (js ! i), js_lon (js ! i))
             \<and> js_addr (js ! i) = sd_address (ds ! i) \<and> js_storename (js ! i) = sd_name (ds ! i))))"
  using store_response_ok [of ds] by (auto simp: store_location_get_def)

theorem store_location_results_witness:
  "store_location_get (example_store_env SearchError) [] = Inr (Json []) \<and>
   sd_location \<lparr>sd_address = Some ''1 Main St'', sd_name = Some ''Shop'', sd_location = Some (37::real, -122)\<rparr> \<noteq> None \<and>
   store_location_get (example_store_env (StoreResults [\<lparr>sd_address = Some ''1 Main St'', sd_name = Some ''Shop'', sd_location = Some (37, -122)\<rparr>])) [] =
     Inr (Json [\<lparr>js_addr = Some ''1 Main St'', js_storename = Some ''Shop'', js_lat = 37, js_lon = -122\<rparr>])"
proof -
  have "store_location_get (example_store_env SearchError) [] = Inr (Json [])"
    using store_location_results [of "example_store_env SearchError" "[]"] by (simp add: example_store_env_def)
  moreover obtain js where "store_location_get (example_store_env (StoreResults [\<lparr>sd_address = Some ''1 Main St'', sd_name = Some ''Shop'', sd_location = Some (37, -122)\<rparr>])) [] = Inr (Json js)"
    and "length js = 1" and "sd_location \<lparr>sd_address = Some ''1 Main St'', sd_name = Some ''Shop'', sd_location = Some (37::real, -122)\<rparr> = Some (js_lat (js ! 0), js_lon (js ! 0))"
    and "js_addr (js ! 0) = Some ''1 Main St''" and "js_storename (js ! 0) = Some ''Shop''"
    using store_location_results [of "example_store_env (StoreResults [\<lparr>sd_address = Some ''1 Main St'', sd_name = Some ''Shop'', sd_location = Some (37, -122)\<rparr>])" "[]"
        "[\<lparr>sd_address = Some ''1 Main St'', sd_name = Some ''Shop'', sd_location = Some (37, -122)\<rparr>]"]
    by (auto simp: example_store_env_def)
  moreover from calculation(2-) have "js = [\<lparr>js_addr = Some ''1 Main St'', js_storename = Some ''Shop'', js_lat = 37, js_lon = -122\<rparr>]"
    by (cases js) auto
  ultimately show ?thesis by simp
qed

text \<open>
  C27. Divergence from spec section 7: only \<open>search.Error\<close> is caught. A search
  result without a \<open>store_location\<close> field makes the handler raise
  \<open>AttributeError\<close> instead of answering with a (possibly empty) result list.
\<close>

theorem store_location_missing_location:
  assumes "store_search env (store_request_query req) = StoreResults ds"
    and "\<exists>d \<in> set ds. sd_location d = None"
  shows "\<exists>m. store_location_get env req = Inl (AttributeError m)"
  using store_response_missing [OF assms(2)] assms(1) by (auto simp: store_location_get_def)

theorem store_location_missing_location_witness:
  "store_search (example_store_env (StoreResults [\<lparr>sd_address = None, sd_name = Some ''Shop'', sd_location = None\<rparr>]))
     (store_request_query []) = StoreResults [\<lparr>sd_address = None, sd_name = Some ''Shop'', sd_location = None\<rparr>] \<and>
   sd_location \<lparr>sd_address = None, sd_name = Some ''Shop'', sd_location = (None :: (real \<times> real) option)\<rparr> = None \<and>
   (\<exists>m. store_location_get (example_store_env (StoreResults [\<lparr>sd_address = None, sd_name = Some ''Shop'', sd_location = None\<rparr>])) [] =
      Inl (AttributeError m))"
  using store_location_missing_location [of "example_store_env (StoreResults [\<lparr>sd_address = None, sd_name = Some ''Shop'', sd_location = None\<rparr>])" "[]"
      "[\<lparr>sd_address = None, sd_name = Some ''Shop'', sd_location = None\<rparr>]"]
  by (simp add: example_store_env_def)

end
