(* ===== verification/Spec2Isabelle.thy ===== *)
theory Spec2Isabelle
  imports Pagination Query CategoryRace CategoryCache Products Handlers
begin

text \<open>
  \<^bold>\<open>A verification model of the product-search demo application.\<close>

  The repository is a small Python 2 App Engine application: request handlers
  (\<open>src/handlers.py\<close>) that parse request parameters, build a query for the
  external search service, paginate its results and render templates; datastore models
  (\<open>src/models.py\<close>) for the category tree and the product records; static data
  (\<open>src/categories.py\<close>), configuration (\<open>src/config.py\<close>) and a helper
  (\<open>src/utils.py\<close>). The search service, the datastore, the template renderer and
  \<open>docs.py\<close> (the search-document wrapper, not in the sources) are external.

  \<^bold>\<open>Theories.\<close>
  \<^item> \<open>Prelude\<close>: the Python exceptions (\<open>py_error\<close>), results (\<open>py_error + 'a\<close>),
    outcomes of stateful calls (the state and an optional exception, since datastore
    writes made before an exception persist), Python values, request parameters as
    association lists, and a datastore kind as an association list written by
    \<open>put\<close> (\<open>AList.update\<close>), with the generic lemmas on them.
  \<^item> \<open>PyBuiltins\<close>: \<open>str.strip\<close>, \<open>int()\<close> and \<open>str()\<close> on ASCII strings as
    Python 2.7 documents them, and the round trip \<open>int(str(n)) = n\<close>.
  \<^item> \<open>Config\<close>: the constants of \<open>config.py\<close> and \<open>utils.intClamp\<close>, with its
    docstring contract (C29: the closest integer of the range) and its behaviour
    outside it (C30: an inverted range, the exception of the first failing
    \<open>int()\<close>).
  \<^item> \<open>Pagination\<close>: \<open>ProductSearchHandler._getDocLimit\<close>, the offset parsing of
    \<open>doProductSearch\<close> and \<open>_generatePaginationLinks\<close>, with the abstract contract
    \<open>compute_links\<close> of spec section 4.1 and its refinement (C1), the safety and
    bounds properties of spec section 8 (C2 to C5, the links read back as the
    offsets they were made for), the \<open>UnicodeEncodeError\<close> of Python 2
    \<open>urlencode\<close> exactly when a link is due (C6) and the acceptance of any
    negative offset (C7).
  \<^item> \<open>Query\<close>: the category filter of \<open>doProductSearch\<close> (\<open>add_category_filter\<close>) and
    \<open>_buildQuery\<close> (\<open>buildQuery\<close>, a record of the \<open>search.Query\<close> it builds).
    C8 shows that the category is one quoted atom exactly when it holds no double
    quote (the atom reader \<open>read_quoted\<close> ignores backslash escapes, see there),
    C9 what a relevance query sends (the stripped query string, the window, the
    snippet and the fields), C10 that any other sort key raises
    \<open>UnboundLocalError\<close>. The checks the search library itself makes on the
    query (its length, the limit and offset ranges) are not modelled: the method is
    dead code (below).
  \<^item> \<open>Categories\<close>: \<open>categories.ctree\<close> as a \<open>cat_data\<close> value and the class
    \<open>models.Category\<close> as a record (the datastore kind and the class-level cache
    \<open>_CATEGORY_INFO\<close>), with \<open>buildCategory\<close>/\<open>buildChildCategories\<close> as a mutual
    recursion, \<open>buildAllCategories\<close> and \<open>getCategoryInfo\<close>. The abstract
    \<open>tree_edges\<close> and \<open>category_tree_ok\<close> state what the build promises: it
    refines the depth-first list of edges (C11) and yields one acyclic tree with one
    root when names are distinct (C12); seeding is idempotent (C13); a nameless datum
    raises \<open>NameError\<close> (C14); the cache is coherent and idempotent (C15, C16).
    Nothing checks that names are distinct; a repeated name overwrites the entity
    stored under it.
  \<^item> \<open>CategoryRace\<close>: concurrent first-time seeding by several requests as an
    interleaving of their datastore steps (\<open>thread_step\<close>: the emptiness check, one
    \<open>put\<close> per category, the return), the reachable states as an inductive
    predicate with the invariant \<open>race_inv\<close> proved by rule induction, and C17
    (every complete interleaving leaves exactly the seeded tree) and C31
    (liveness: from every reachable state a continuation of the schedule completes
    every started request and seeds the tree; the set of started requests is finite
    and \<open>completion_schedule\<close> gives each the steps its rank says it needs).
  \<^item> \<open>CategoryCache\<close>: \<open>getCategoryInfo\<close> of requests served by several
    application instances, each with its own class attribute \<open>_CATEGORY_INFO\<close>
    (\<open>cache_state\<close>), over the shared kind of \<open>CategoryRace\<close>; \<open>info_step\<close> is
    one step of a request: the cache test, a step of the build, or the fetch and the
    assignment. C34: a menu fetched while no seeding write is in flight is complete.
    C35: a non-empty cached menu is never replaced; its witness caches the menu of a
    half-seeded store, which that instance then serves for good.
  \<^item> \<open>Products\<close>: \<open>models.Product\<close> as a record, the validation of its ndb
    properties and of its key id, \<open>Product.create\<close> (reads, builds the key,
    validates, puts under the id or under an allocated one) and \<open>update_core\<close>
    (populates, no put): C18 the write, C19 its error paths, C20 the two agree but
    for \<open>active\<close>, C32 the schema as a type discipline: \<open>create\<close> succeeds
    exactly on present parameters with a valid key id and admitted values.
  \<^item> \<open>Handlers\<close>: \<open>parseParams\<close> of both handlers, \<open>IndexHandler.get\<close>,
    \<open>ShowProductHandler.get\<close>, \<open>ProductSearchHandler.post/get/doProductSearch\<close> and
    \<open>StoreLocationHandler.get\<close> as functions of an environment
    (\<open>handler_env\<close>: the product index, the sort menu, the store search, the current
    user, the configured page size), the request and the category class, answering a
    \<open>response\<close> or an exception. C21 to C27: the allow-list of parameters, the
    post/get round trip, the product page and its error paths, the \<open>NameError\<close>
    every product search ends in, and the JSON answer of the store search with its
    uncaught \<open>AttributeError\<close>.

  \<^item> This theory: the application as a sequence of requests, one constructor of
    \<open>app_request\<close> per handler method, \<open>app_step\<close> serving one request against the
    persistent category class and \<open>run_requests\<close> serving a list of them; C28 is the
    invariant of the instance over every such sequence from its start, C33 that the
    first index page or product search seeds the store and fills the cache for good.

  Components interact through the category class (read and written by
  \<open>getCategoryInfo\<close> from \<open>IndexHandler.get\<close> and \<open>doProductSearch\<close>), through
  \<open>_getDocLimit\<close> and the offset shared by the query and the links, and through the
  request parameters that \<open>post\<close> passes to \<open>get\<close>.

  \<^bold>\<open>Modelling choices.\<close> Python integers are \<open>int\<close>; strings are \<open>string\<close>
  with one \<open>char\<close> per code point, so only ASCII is modelled exactly and a
  character of code 128 or more stands for a non-ASCII code point. A search link
  (\<open>'/psearch?' + urlencode(pcopy)\<close>) is modelled by the parameter dictionary it
  serialises, the serialisation of ASCII values being left out. No fuel is needed:
  every modelled loop is structural recursion over a list or the category tree, and
  the only unbounded interleaving (\<open>CategoryRace\<close>) is a fold over an explicit
  schedule. The ndb property and key validation and the search and index
  collaborators are modelled from their documented behaviour, as inputs of the
  handlers; \<open>encode('utf-8')\<close> on a string is the identity, and its UTF-8 length
  (for the 1500-byte limits) counts two bytes for a code point of 128 or more.
  \<open>update_core\<close> is modelled as all-or-nothing, whereas \<open>populate\<close> may set one
  property before another raises; nothing in the sources calls it.

  \<^bold>\<open>Reachability of the code.\<close> \<open>doProductSearch\<close> raises \<open>NameError\<close>
  before it could call \<open>_buildQuery\<close> or \<open>_generatePaginationLinks\<close> (C25), so in
  the application as written those two are dead code: their claims (C1 to C10) are
  about the routines themselves, as a caller that supplied \<open>search_results\<close> would
  use them.

  \<^bold>\<open>Not modelled, and why.\<close> Nothing of \<open>src/\<close> that runs is left out; what
  remains is outside the sources or cannot run.
  \<^item> \<open>docs.py\<close> (\<open>docs.Product\<close>, \<open>docs.Store\<close>) and the base handler with its
    templates are not in the sources and the spec treats them only as collaborators:
    the handlers read them through \<open>handler_env\<close> (the product index, the sort menu,
    the store search), and rendering, redirecting and aborting are the constructors of
    \<open>response\<close>.
  \<^item> The App Engine services are libraries the code calls: the datastore is modelled
    by the writes and reads the code makes (\<open>put\<close>, \<open>query().get()\<close>,
    \<open>query().fetch()\<close> ordered by key), the ndb property validation by its documented
    types, the search service and the users service as inputs; logging has no effect.
  \<^item> \<open>categories.product_dict\<close> lacks a comma between its two entries, so the file
    does not parse; nothing in the sources reads it. The model takes the rest of
    \<open>categories.py\<close> as written, although in Python the syntax error stops the whole
    module, and with it \<open>models\<close> and \<open>handlers\<close>, from importing.
  \<^item> Unicode beyond ASCII: strings are lists of \<open>char\<close>, so \<open>strip()\<close> and
    \<open>int()\<close> are exact on ASCII text only.
\<close>

section \<open>The application as a sequence of requests\<close>

text \<open>
  The URL routes of the application, one constructor per handler method, and a
  request served against the category class the instance holds: the class-level
  cache and the category kind persist from one request to the next, everything else
  is per request.
\<close>

datatype app_request =
    IndexReq
  | ShowProductReq request
  | SearchPostReq request
  | SearchGetReq request
  | StoreLocationReq request

fun app_step :: "handler_env \<Rightarrow> category_class \<Rightarrow> app_request \<Rightarrow> category_class \<times> response result" where
  "app_step env c IndexReq = index_get env c"
| "app_step env c (ShowProductReq r) = (c, Inr (show_product_get env r))"
| "app_step env c (SearchPostReq r) = (c, Inr (product_search_post r))"
| "app_step env c (SearchGetReq r) = product_search_get env r c"
| "app_step env c (StoreLocationReq r) = (c, store_location_get env r)"

fun run_requests :: "handler_env \<Rightarrow> category_class \<Rightarrow> app_request list \<Rightarrow> category_class \<times> response result list" where
  "run_requests env c [] = (c, [])"
| "run_requests env c (r # rs) =
     (case app_step env c r of
        (c', x) \<Rightarrow> (case run_requests env c' rs of (c'', xs) \<Rightarrow> (c'', x # xs)))"

definition app_init :: category_class where
  "app_init = \<lparr>cat_store = [], CATEGORY_INFO = None\<rparr>"

definition seeded_menu :: "(string \<times> string) list" where
  "seeded_menu = [(''Laptops'', ''Laptops''), (''smartphones'', ''smartphones'')]"

text \<open>The category class between requests: not yet seeded, or seeded with a coherent cache.\<close>

definition app_inv :: "category_class \<Rightarrow> bool" where
  "app_inv c \<longleftrightarrow> (cat_store c = [] \<or> cat_store c = tree_edges ctree None) \<and> cache_coherent c"

definition index_ok :: "handler_env \<Rightarrow> response result \<Rightarrow> bool" where
  "index_ok env x \<longleftrightarrow> (\<forall>ci sm. x = Inr (IndexPage ci sm) \<longrightarrow> ci = seeded_menu \<and> sm = sort_menu env)"

text \<open>The requests that read the category menu, and so seed the store on first use.\<close>

fun seeding_request :: "app_request \<Rightarrow> bool" where
  "seeding_request IndexReq = True"
| "seeding_request (SearchGetReq _) = True"
| "seeding_request _ = False"

definition app_seeded :: "category_class \<Rightarrow> bool" where
  "app_seeded c \<longleftrightarrow> cat_store c = tree_edges ctree None \<and> CATEGORY_INFO c = Some seeded_menu"

section \<open>Lemmas\<close>

lemma getCategoryInfo_app_inv:
  assumes "app_inv c" and "getCategoryInfo c = (c', r)"
  shows "app_inv c' \<and> app_seeded c' \<and> r = Inr seeded_menu"
proof (cases "CATEGORY_INFO c = None \<or> CATEGORY_INFO c = Some []")
  case True
  have "fst (buildAllCategories (cat_store c)) = tree_edges ctree None"
    using assms(1) by (auto simp: app_inv_def buildAllCategories_eq)
  with True assms(2) show ?thesis
    by (auto simp: getCategoryInfo_eq Let_def app_inv_def app_seeded_def cache_coherent_def
        category_info_ctree seeded_menu_def)
next
  case False
  then obtain xs where xs: "CATEGORY_INFO c = Some xs" "xs \<noteq> []" by auto
  with assms(1) have xs_eq: "xs = category_info (cat_store c)" by (simp add: app_inv_def cache_coherent_def)
  with xs(2) have "cat_store c \<noteq> []" by (auto simp: category_info_def)
  with assms(1) have "cat_store c = tree_edges ctree None" by (simp add: app_inv_def)
  with xs xs_eq assms show ?thesis
    by (auto simp: getCategoryInfo_eq app_seeded_def category_info_ctree seeded_menu_def)
qed

lemma other_handlers_not_index:
  "show_product_get env r \<noteq> IndexPage ci sm"
  "product_search_post r \<noteq> IndexPage ci sm"
  "store_location_get env r \<noteq> Inr (IndexPage ci sm)"
proof -
  have "map_sum id Json y \<noteq> Inr (IndexPage ci sm)" for y :: "store_json list result"
    by (cases y) simp_all
  then show "show_product_get env r \<noteq> IndexPage ci sm" "product_search_post r \<noteq> IndexPage ci sm"
    "store_location_get env r \<noteq> Inr (IndexPage ci sm)"
    by (auto simp: show_product_get_def product_search_post_def store_location_get_def Let_def
      split: option.splits store_search_result.splits)
qed

lemma app_step_inv:
  assumes "app_inv c" and "app_step env c q = (c', x)"
  shows "app_inv c' \<and> index_ok env x"
proof (cases q)
  case IndexReq
  obtain c1 r where g: "getCategoryInfo c = (c1, r)" by fastforce
  with getCategoryInfo_app_inv [OF assms(1) g] assms(2) IndexReq show ?thesis
    by (auto simp: index_get_def index_ok_def)
next
  case (SearchGetReq r)
  obtain c1 i where g: "getCategoryInfo c = (c1, i)" by fastforce
  with getCategoryInfo_app_inv [OF assms(1) g] assms(2) SearchGetReq show ?thesis
    by (auto simp: product_search_get_def doProductSearch_def Let_def index_ok_def split: sum.splits)
qed (use assms other_handlers_not_index in \<open>auto simp: index_ok_def\<close>)

lemma run_requests_inv:
  "app_inv c \<Longrightarrow> run_requests env c rs = (c', xs) \<Longrightarrow> app_inv c' \<and> (\<forall>x \<in> set xs. index_ok env x)"
proof (induction rs arbitrary: c xs)
  case (Cons q rs)
  obtain c1 x where s: "app_step env c q = (c1, x)" by fastforce
  obtain c2 ys where r: "run_requests env c1 rs = (c2, ys)" by fastforce
  from app_step_inv [OF Cons.prems(1) s] have i1: "app_inv c1" and o1: "index_ok env x" by simp_all
  from Cons.prems(2) s r have e: "c2 = c'" "xs = x # ys" by auto
  with r have "run_requests env c1 rs = (c', ys)" by simp
  from Cons.IH [OF i1 this] o1 e(2) show ?case by simp
qed simp

lemma app_seeded_inv: "app_seeded c \<Longrightarrow> app_inv c"
  by (simp add: app_seeded_def app_inv_def cache_coherent_def category_info_ctree seeded_menu_def)

lemma app_step_state:
  "fst (app_step env c q) = (if seeding_request q then fst (getCategoryInfo c) else c)"
  by (cases q) (auto simp: index_get_def product_search_get_def doProductSearch_def Let_def
      split: prod.splits sum.splits)

lemma app_step_seeds:
  "app_inv c \<Longrightarrow> seeding_request q \<Longrightarrow> app_seeded (fst (app_step env c q))"
  using getCategoryInfo_app_inv [of c "fst (getCategoryInfo c)" "snd (getCategoryInfo c)"]
  by (simp add: app_step_state)

lemma app_step_keeps_seeded: "app_seeded c \<Longrightarrow> app_seeded (fst (app_step env c q))"
  using app_step_seeds [OF app_seeded_inv] by (simp add: app_step_state)

lemma run_requests_state:
  "fst (run_requests env c (q # rs)) = fst (run_requests env (fst (app_step env c q)) rs)"
  by (simp split: prod.splits)

lemma run_requests_keeps_seeded: "app_seeded c \<Longrightarrow> app_seeded (fst (run_requests env c rs))"
  by (induction rs arbitrary: c) (simp_all add: run_requests_state app_step_keeps_seeded del: run_requests.simps(2))

lemma run_requests_seeds:
  "app_inv c \<Longrightarrow> \<exists>q \<in> set rs. seeding_request q \<Longrightarrow> app_seeded (fst (run_requests env c rs))"
proof (induction rs arbitrary: c)
  case (Cons q rs)
  show ?case
  proof (cases "seeding_request q")
    case True
    with Cons.prems(1) have "app_seeded (fst (app_step env c q))" by (rule app_step_seeds)
    then show ?thesis by (simp add: run_requests_state run_requests_keeps_seeded del: run_requests.simps(2))
  next
    case False
    obtain c1 x where s: "app_step env c q = (c1, x)" by fastforce
    with app_step_inv [OF Cons.prems(1) s] have "app_inv c1" by simp
    moreover from False Cons.prems(2) have "\<exists>q \<in> set rs. seeding_request q" by auto
    ultimately have "app_seeded (fst (run_requests env c1 rs))" by (rule Cons.IH)
    with s show ?thesis by (simp add: run_requests_state del: run_requests.simps(2))
  qed
qed simp

section \<open>Properties of the application\<close>

text \<open>
  C28. Across any sequence of requests served by one instance from its start (index
  page, product pages, searches, store searches, in any order and with any
  parameters), the category kind is either still empty or exactly the seeded tree,
  which satisfies the tree invariant of spec section 3; the cache always agrees with
  it; and every index page lists exactly the seeded categories, root left out, with
  the configured sort menu.
\<close>

theorem app_requests_invariant:
  assumes "run_requests env app_init rs = (c, xs)"
  shows "(cat_store c = [] \<or> (cat_store c = tree_edges ctree None \<and> category_tree_ok (cat_store c)))
         \<and> cache_coherent c
         \<and> (\<forall>x \<in> set xs. \<forall>ci sm. x = Inr (IndexPage ci sm) \<longrightarrow> ci = seeded_menu \<and> sm = sort_menu env)"
proof -
  have "app_inv app_init" by (simp add: app_inv_def app_init_def cache_coherent_def)
  from run_requests_inv [OF this assms] have i: "app_inv c" and o: "\<forall>x \<in> set xs. index_ok env x"
    by simp_all
  have "category_tree_ok (tree_edges ctree None)"
    by (rule tree_ok_edges [OF wf_ctree]) (simp add: ctree_edges)
  with i o show ?thesis by (auto simp: app_inv_def index_ok_def)
qed

theorem app_requests_invariant_witness:
  "run_requests (example_store_env SearchError) app_init [SearchGetReq [(''query'', ''shoes'')], IndexReq] =
     (\<lparr>cat_store = tree_edges ctree None, CATEGORY_INFO = Some seeded_menu\<rparr>,
      [Inl search_results_error, Inr (IndexPage seeded_menu [])]) \<and>
   category_tree_ok (tree_edges ctree None) \<and>
   cache_coherent \<lparr>cat_store = tree_edges ctree None, CATEGORY_INFO = Some seeded_menu\<rparr>"
proof -
  have r: "run_requests (example_store_env SearchError) app_init [SearchGetReq [(''query'', ''shoes'')], IndexReq] =
     (\<lparr>cat_store = tree_edges ctree None, CATEGORY_INFO = Some seeded_menu\<rparr>,
      [Inl search_results_error, Inr (IndexPage seeded_menu [])])"
    by (simp add: app_init_def product_search_get_def doProductSearch_def getCategoryInfo_eq
        buildAllCategories_eq category_info_ctree seeded_menu_def index_get_def example_store_env_def Let_def)
  from app_requests_invariant [OF r] r show ?thesis by (auto simp: ctree_edges)
qed

text \<open>
  C33. Seeding happens on first use and then holds: once an index page or a product
  search has been served, the category kind holds exactly the seeded tree and the
  class cache holds its menu, whatever other requests came before or after.
\<close>

theorem app_seeded_after_first_use:
  assumes "run_requests env app_init rs = (c, xs)" and "\<exists>q \<in> set rs. seeding_request q"
  shows "cat_store c = tree_edges ctree None \<and> CATEGORY_INFO c = Some seeded_menu"
proof -
  have "app_inv app_init" by (simp add: app_inv_def app_init_def cache_coherent_def)
  from run_requests_seeds [OF this assms(2), of env] assms(1) show ?thesis
    by (simp add: app_seeded_def)
qed

theorem app_seeded_after_first_use_witness:
  "run_requests (example_store_env SearchError) app_init [ShowProductReq [], IndexReq, StoreLocationReq []] =
     (\<lparr>cat_store = tree_edges ctree None, CATEGORY_INFO = Some seeded_menu\<rparr>,
      [Inr (show_product_get (example_store_env SearchError) []), Inr (IndexPage seeded_menu []), Inr (Json [])]) \<and>
   seeding_request IndexReq \<and>
   CATEGORY_INFO \<lparr>cat_store = tree_edges ctree None, CATEGORY_INFO = Some seeded_menu\<rparr> = Some seeded_menu"
proof -
  have r: "run_requests (example_store_env SearchError) app_init [ShowProductReq [], IndexReq, StoreLocationReq []] =
     (\<lparr>cat_store = tree_edges ctree None, CATEGORY_INFO = Some seeded_menu\<rparr>,
      [Inr (show_product_get (example_store_env SearchError) []), Inr (IndexPage seeded_menu []), Inr (Json [])])"
    by (simp add: app_init_def getCategoryInfo_eq buildAllCategories_eq category_info_ctree seeded_menu_def
        index_get_def store_location_get_def example_store_env_def Let_def)
  have "\<exists>q \<in> set [ShowProductReq [], IndexReq, StoreLocationReq []]. seeding_request q" by simp
  from app_seeded_after_first_use [OF r this] r show ?thesis by simp
qed

end
